theory Spec2Isabelle
  imports Complex_Main "HOL-Library.Log_Nat"
begin

section \<open>JavaScript values\<close>

text \<open>
  A JavaScript Number is an IEEE double: a finite value (always a rational), NaN or one
  of the two infinities.  The stores only compare Numbers and take their maximum, which
  is exact, so the finite values are modelled by \<open>rat\<close>.
\<close>

datatype jsnum = Fin rat | NaN | PosInf | NegInf

text \<open>
  A value as a caller can supply it in a JSON body or a JavaScript object.  An object or
  array is represented by the string that \<open>String(v)\<close> yields for it, which is all that
  \<open>parseInt\<close> looks at.
\<close>

datatype jsval = JUndefined | JNull | JBool bool | JNum jsnum | JStr string | JObject string

datatype jscode = NoCode | StrCode string | NumCode int

datatype js_error = JsError (err_code: jscode) (err_message: string)

text \<open>
  \<open>String.prototype.trim\<close> strips white space and line terminators from both ends.
  Strings are \<open>char list\<close>; the white space of the Latin-1 range is TAB, LF, VT, FF, CR,
  SPACE and NBSP.
\<close>

definition isWhiteSpace :: "char \<Rightarrow> bool" where
  "isWhiteSpace c = (c \<in> {CHR 0x09, CHR 0x0A, CHR 0x0B, CHR 0x0C, CHR 0x0D, CHR 0x20, CHR 0xA0})"

definition trim :: "string \<Rightarrow> string" where
  "trim s = rev (dropWhile isWhiteSpace (rev (dropWhile isWhiteSpace s)))"

section \<open>Data model\<close>

record registration_input =
  teamNumber :: string
  teamName :: string
  teamLeader :: string
  problemStatementId :: string

record registration = registration_input +
  registrationDateTime :: string

text \<open>
  A stored problem statement.  Every writer of the two stores puts the result of
  \<open>Math.max\<close> into \<open>maxSelections\<close>, a Number; the JSON file turns NaN and the infinities
  into \<open>null\<close>.  So the stored field is a Number or \<open>null\<close> (\<open>None\<close>).  The cached
  counter \<open>selectedCount\<close> exists in the document store only and may be missing.
\<close>

record problem_statement =
  ps_id :: string
  title :: string
  description :: string
  maxSelections :: "jsnum option"
  category :: "string option"
  difficulty :: "string option"
  technologies :: "string list"
  selectedCount :: "int option"

record document =
  problemStatements :: "problem_statement list"
  registrations :: "registration list"

record reg_result =
  res_id :: string
  changes :: nat

type_synonym 'a result = "js_error + 'a"

section \<open>File backend (json\_store)\<close>

text \<open>
  The state of a \<open>DatabaseManager\<close>: the flag \<open>useBlob\<close>, the in-memory copy
  \<open>memoryData\<close> (\<open>null\<close> before the first write), the object \<open>defaultData\<close>, and the
  durable source (the file \<open>data.json\<close> or the blob of that name), which is \<open>None\<close> when
  it is missing or does not parse.
\<close>

record file_store =
  useBlob :: bool
  memoryData :: "document option"
  defaultData :: document
  source :: "document option"

text \<open>
  What the file system and the clock answer during one attempt of the retry loop: the
  result of the exclusive creation of the lock marker (\<open>None\<close>: created), the result of
  writing the document (\<open>None\<close>: written), and the time stamp.
\<close>

record attempt_env =
  lockResult :: "js_error option"
  writeResult :: "js_error option"
  now :: string

text \<open>The calls a store operation makes on the file system, in order.\<close>

datatype fs_event =
  LockCreated | LockConflict | LockError | LockUnlinked | Slept nat
  | SourceRead | DocWritten | WriteFailed

text \<open>
  \<open>#readFromSource\<close>: the parsed document, or \<open>{ ...this.defaultData }\<close> when reading
  fails.  The spread copy shares both arrays with \<open>defaultData\<close>.
\<close>

definition readFromSource :: "file_store \<Rightarrow> document" where
  "readFromSource s = (case source s of Some d \<Rightarrow> d | None \<Rightarrow> defaultData s)"

text \<open>\<open>#read\<close>: the in-memory copy when there is one.\<close>

definition read_data :: "file_store \<Rightarrow> document" where
  "read_data s = (case memoryData s of Some d \<Rightarrow> d | None \<Rightarrow> readFromSource s)"

text \<open>\<open>JSON.parse(JSON.stringify(json))\<close>: NaN and the infinities are written as \<open>null\<close>.\<close>

definition json_num :: "jsnum option \<Rightarrow> jsnum option" where
  "json_num m = (case m of Some (Fin q) \<Rightarrow> Some (Fin q) | _ \<Rightarrow> None)"

definition json_doc :: "document \<Rightarrow> document" where
  "json_doc d = d\<lparr>problemStatements :=
     map (\<lambda>p. p\<lparr>maxSelections := json_num (maxSelections p)\<rparr>) (problemStatements d)\<rparr>"

text \<open>
  \<open>#atomicWrite\<close>: the in-memory copy is replaced first, then the document is written;
  a failing write throws after the in-memory copy has changed.
\<close>

definition atomicWrite :: "js_error option \<Rightarrow> document \<Rightarrow> file_store \<Rightarrow> unit result \<times> file_store" where
  "atomicWrite fault json s =
     (let s1 = s\<lparr>memoryData := Some (json_doc json)\<rparr> in
      case fault of
        Some e \<Rightarrow> (Inl e, s1)
      | None \<Rightarrow> (Inr (), s1\<lparr>source := Some (json_doc json)\<rparr>))"

text \<open>
  \<open>current >= ps.maxSelections\<close> for a count \<open>current\<close>: \<open>null\<close> converts to 0, and a
  comparison with NaN is false.
\<close>

definition count_ge :: "nat \<Rightarrow> jsnum option \<Rightarrow> bool" where
  "count_ge current m =
     (case m of
        None \<Rightarrow> True
      | Some (Fin q) \<Rightarrow> q \<le> of_nat current
      | Some NaN \<Rightarrow> False
      | Some PosInf \<Rightarrow> False
      | Some NegInf \<Rightarrow> True)"

definition maxRetries :: nat where
  "maxRetries = 10"

definition retryDelay :: nat where
  "retryDelay = 50"

definition lockExhausted :: js_error where
  "lockExhausted = JsError NoCode ''Failed to acquire lock for registration after maximum retries''"

type_synonym file_outcome = "reg_result option result \<times> file_store \<times> fs_event list"

definition after_events :: "fs_event list \<Rightarrow> file_outcome \<Rightarrow> file_outcome" where
  "after_events t x = (case x of (r, s, t') \<Rightarrow> (r, s, t @ t'))"

text \<open>
  The body of the inner \<open>try\<close> of \<open>createRegistrationAtomic\<close>: re-read the source,
  check the team number, the problem statement and its capacity, then append the record
  and write.  When the source could not be read, \<open>data.registrations\<close> is the array of
  \<open>defaultData\<close> itself, so the \<open>push\<close> changes \<open>defaultData\<close> too.
\<close>

definition critical_section :: "attempt_env \<Rightarrow> registration_input \<Rightarrow> file_store \<Rightarrow> file_outcome" where
  "critical_section e registration s =
     (let data = readFromSource s;
          target = trim (teamNumber registration) in
      if list_ex (\<lambda>r. trim (teamNumber r) = target) (registrations data) then (Inr None, s, [SourceRead])
      else case find (\<lambda>p. ps_id p = problemStatementId registration) (problemStatements data) of
        None \<Rightarrow> (Inr None, s, [SourceRead])
      | Some ps \<Rightarrow>
          (let current = length (filter (\<lambda>r. problemStatementId r = ps_id ps) (registrations data)) in
           if count_ge current (maxSelections ps) then (Inr None, s, [SourceRead])
           else
             (let record = \<lparr>teamNumber = target, teamName = teamName registration,
                            teamLeader = teamLeader registration,
                            problemStatementId = problemStatementId registration,
                            registrationDateTime = now e\<rparr>;
                  data' = data\<lparr>registrations := registrations data @ [record]\<rparr>;
                  s1 = (case source s of Some _ \<Rightarrow> s | None \<Rightarrow> s\<lparr>defaultData := data'\<rparr>)
              in case atomicWrite (writeResult e) data' s1 of
                   (Inl err, s2) \<Rightarrow> (Inl err, s2, [SourceRead, WriteFailed])
                 | (Inr _, s2) \<Rightarrow>
                     (Inr (Some \<lparr>res_id = target, changes = 1\<rparr>), s2, [SourceRead, DocWritten]))))"

text \<open>
  The retry loop, from attempt number \<open>attempt\<close> on.  Outside blob mode an attempt first
  creates the lock marker exclusively; \<open>EEXIST\<close> waits and continues, any other error is
  thrown to the outer \<open>catch\<close>.  The \<open>finally\<close> unlinks the marker, the outer \<open>catch\<close>
  unlinks it once more, rethrows on the last attempt and otherwise waits and goes on.
\<close>

function attempts :: "nat \<Rightarrow> (nat \<Rightarrow> attempt_env) \<Rightarrow> registration_input \<Rightarrow> file_store \<Rightarrow> file_outcome" where
  "attempts attempt env registration s =
     (if attempt < maxRetries then
        (let e = env attempt;
             unlink = (if useBlob s then [] else [LockUnlinked]);
             on_error = (\<lambda>err s' t.
               if attempt = maxRetries - 1 then (Inl err, s', t @ unlink)
               else after_events (t @ unlink @ [Slept retryDelay])
                      (attempts (attempt + 1) env registration s'))
         in case (if useBlob s then None else lockResult e) of
              Some err \<Rightarrow>
                if err_code err = StrCode ''EEXIST''
                then after_events [LockConflict, Slept retryDelay]
                       (attempts (attempt + 1) env registration s)
                else on_error err s [LockError]
            | None \<Rightarrow>
                (let acquire = (if useBlob s then [] else [LockCreated]) in
                 case critical_section e registration s of
                   (Inr v, s1, t1) \<Rightarrow> (Inr v, s1, acquire @ t1 @ unlink)
                 | (Inl err, s1, t1) \<Rightarrow> on_error err s1 (acquire @ t1 @ unlink)))
      else (Inl lockExhausted, s, []))"
  by pat_completeness auto
termination
  by (relation "measure (\<lambda>(attempt, env, registration, s). maxRetries - attempt)") auto

definition json_createRegistrationAtomic :: "(nat \<Rightarrow> attempt_env) \<Rightarrow> registration_input \<Rightarrow> file_store \<Rightarrow> file_outcome" where
  "json_createRegistrationAtomic env registration s = attempts 0 env registration s"

text \<open>
  \<open>deleteRegistration\<close>: filter the registrations of \<open>#read()\<close>, write, and return
  the number of rows removed.  The write is made even when nothing matched.
\<close>

definition json_deleteRegistration :: "js_error option \<Rightarrow> string \<Rightarrow> file_store \<Rightarrow> nat result \<times> file_store" where
  "json_deleteRegistration fault teamNumber' s =
     (let data = read_data s;
          target = trim teamNumber';
          before = length (registrations data);
          data' = data\<lparr>registrations := filter (\<lambda>r. trim (teamNumber r) \<noteq> target) (registrations data)\<rparr>
      in case atomicWrite fault data' s of
           (Inl err, s') \<Rightarrow> (Inl err, s')
         | (Inr _, s') \<Rightarrow> (Inr (before - length (registrations data')), s'))"

text \<open>The default catalog, the same literal in both stores.\<close>

definition defaults :: "problem_statement list" where
  "defaults =
     [\<lparr>ps_id = ''ps001'', title = ''Secure Authentication System'',
       description = ''Design and implement a multi-factor authentication system with biometric verification, OTP, and secure session management for a banking application.'',
       maxSelections = Some (Fin 2), category = Some ''Cybersecurity'', difficulty = Some ''Advanced'',
       technologies = [''Node.js'', ''React'', ''JWT''], selectedCount = None\<rparr>,
      \<lparr>ps_id = ''ps002'', title = ''AI-Powered Code Review Assistant'',
       description = ''Develop an intelligent code review tool that uses machine learning to detect bugs, security vulnerabilities, and suggest improvements in real-time.'',
       maxSelections = Some (Fin 2), category = Some ''Artificial Intelligence'', difficulty = Some ''Advanced'',
       technologies = [''Python'', ''TensorFlow''], selectedCount = None\<rparr>,
      \<lparr>ps_id = ''ps003'', title = ''Blockchain Supply Chain Tracker'',
       description = ''Create a transparent supply chain management system using blockchain technology to track products from manufacturer to consumer.'',
       maxSelections = Some (Fin 2), category = Some ''Blockchain'', difficulty = Some ''Intermediate'',
       technologies = [''Ethereum'', ''Solidity''], selectedCount = None\<rparr>]"

text \<open>\<open>seedProblemStatements\<close>: replace the problem statements of \<open>#read()\<close> and write.\<close>

definition json_seedProblemStatements :: "js_error option \<Rightarrow> file_store \<Rightarrow> unit result \<times> file_store" where
  "json_seedProblemStatements fault s =
     (let data = read_data s in atomicWrite fault (data\<lparr>problemStatements := defaults\<rparr>) s)"

text \<open>\<open>resetAll\<close>: write the empty document, then seed; either write may throw.\<close>

definition json_resetAll :: "js_error option \<Rightarrow> js_error option \<Rightarrow> file_store \<Rightarrow> bool result \<times> file_store" where
  "json_resetAll fault1 fault2 s =
     (case atomicWrite fault1 \<lparr>problemStatements = [], registrations = []\<rparr> s of
        (Inl err, s1) \<Rightarrow> (Inl err, s1)
      | (Inr _, s1) \<Rightarrow>
          (case json_seedProblemStatements fault2 s1 of
             (Inl err, s2) \<Rightarrow> (Inl err, s2)
           | (Inr _, s2) \<Rightarrow> (Inr True, s2)))"

section \<open>The coercion of maxSelections\<close>

definition isDigit :: "char \<Rightarrow> bool" where
  "isDigit c = (48 \<le> (of_char c :: nat) \<and> (of_char c :: nat) \<le> 57)"

definition digits_value :: "string \<Rightarrow> nat" where
  "digits_value Z = foldl (\<lambda>a c. 10 * a + ((of_char c :: nat) - 48)) 0 Z"

text \<open>
  The Number nearest to a natural number: exact below \<open>2^53\<close>, else rounded to 53
  significant bits, ties to even, and \<open>Infinity\<close> from \<open>2^1024\<close> on.
\<close>

definition number_of_nat :: "nat \<Rightarrow> jsnum" where
  "number_of_nat n =
     (if n < 2 ^ 53 then Fin (of_nat n)
      else
        (let e = floorlog 2 n - 53;
             q = n div 2 ^ e;
             r = n mod 2 ^ e;
             q' = (if 2 ^ e < 2 * r \<or> (2 * r = 2 ^ e \<and> odd q) then q + 1 else q);
             v = q' * 2 ^ e
         in if 2 ^ 1024 \<le> v then PosInf else Fin (of_nat v)))"

definition negate :: "jsnum \<Rightarrow> jsnum" where
  "negate n = (case n of Fin q \<Rightarrow> Fin (- q) | NaN \<Rightarrow> NaN | PosInf \<Rightarrow> NegInf | NegInf \<Rightarrow> PosInf)"

text \<open>
  \<open>parseInt(inputString, 10)\<close>: skip leading white space, take an optional sign, then
  the longest run of decimal digits; \<open>NaN\<close> when there is no digit.
\<close>

definition parseInt :: "string \<Rightarrow> jsnum" where
  "parseInt inputString =
     (let S = dropWhile isWhiteSpace inputString;
          minus = (case S of c # _ \<Rightarrow> c = CHR ''-'' | [] \<Rightarrow> False);
          S1 = (case S of c # cs \<Rightarrow> if c = CHR ''+'' \<or> c = CHR ''-'' then cs else S | [] \<Rightarrow> S);
          Z = takeWhile isDigit S1
      in if Z = [] then NaN
         else if minus then negate (number_of_nat (digits_value Z))
         else number_of_nat (digits_value Z))"

text \<open>\<open>x || 0\<close> for a Number \<open>x\<close>: 0 and NaN are falsy.\<close>

definition or_zero :: "jsnum \<Rightarrow> jsnum" where
  "or_zero n = (if n = NaN \<or> n = Fin 0 then Fin 0 else n)"

fun math_max :: "jsnum \<Rightarrow> jsnum \<Rightarrow> jsnum" where
  "math_max NaN b = NaN"
| "math_max a NaN = NaN"
| "math_max PosInf b = PosInf"
| "math_max a PosInf = PosInf"
| "math_max NegInf b = b"
| "math_max a NegInf = a"
| "math_max (Fin a) (Fin b) = Fin (max a b)"

text \<open>
  \<open>typeof v === 'number' ? v : parseInt(v || '0', 10) || 0\<close>.  For a value that is not
  a Number, \<open>v || '0'\<close> replaces \<open>undefined\<close>, \<open>null\<close>, \<open>false\<close> and the empty string by
  \<open>'0'\<close>, and \<open>parseInt\<close> converts what is left to a string.
\<close>

definition parsedMax :: "jsval \<Rightarrow> jsnum" where
  "parsedMax v =
     (case v of
        JNum n \<Rightarrow> n
      | JUndefined \<Rightarrow> or_zero (parseInt ''0'')
      | JNull \<Rightarrow> or_zero (parseInt ''0'')
      | JBool b \<Rightarrow> or_zero (parseInt (if b then ''true'' else ''0''))
      | JStr str \<Rightarrow> or_zero (parseInt (if str = [] then ''0'' else str))
      | JObject str \<Rightarrow> or_zero (parseInt str))"

text \<open>\<open>const maxSel = Math.max(1, parsedMax)\<close>.\<close>

definition maxSel :: "jsval \<Rightarrow> jsnum" where
  "maxSel v = math_max (Fin 1) (parsedMax v)"

text \<open>A stored \<open>maxSelections\<close> read back as a value.\<close>

definition stored_value :: "jsnum option \<Rightarrow> jsval" where
  "stored_value m = (case m of Some n \<Rightarrow> JNum n | None \<Rightarrow> JNull)"

section \<open>The catalog operations\<close>

text \<open>A problem statement as a caller supplies it; a missing key is \<open>None\<close> or \<open>JUndefined\<close>.\<close>

record ps_input =
  in_id :: string
  in_title :: string
  in_description :: string
  in_maxSelections :: jsval
  in_category :: "string option"
  in_difficulty :: "string option"
  in_technologies :: "string list option"

text \<open>\<open>x || null\<close> for an optional string.\<close>

definition or_null :: "string option \<Rightarrow> string option" where
  "or_null x = (case x of Some str \<Rightarrow> if str = [] then None else Some str | None \<Rightarrow> None)"

text \<open>The object literal that every writer of both stores builds from an input.\<close>

definition new_problem_statement :: "ps_input \<Rightarrow> problem_statement" where
  "new_problem_statement p =
     \<lparr>ps_id = in_id p, title = in_title p, description = in_description p,
      maxSelections = Some (maxSel (in_maxSelections p)),
      category = or_null (in_category p), difficulty = or_null (in_difficulty p),
      technologies = (case in_technologies p of Some ts \<Rightarrow> ts | None \<Rightarrow> []),
      selectedCount = None\<rparr>"

text \<open>
  The updates of \<open>updateProblemStatement\<close>; a key that is \<open>undefined\<close> is \<open>None\<close>
  (\<open>JUndefined\<close> for the two spellings of the limit).
\<close>

record ps_updates =
  up_title :: "string option"
  up_description :: "string option"
  up_max_selections :: jsval
  up_maxSelections :: jsval
  up_category :: "string option option"
  up_difficulty :: "string option option"
  up_technologies :: "string list option option"

record change_result =
  ch_id :: string
  ch_changes :: nat

text \<open>
  The document of \<open>#read()\<close> is \<open>memoryData\<close> itself, a fresh parse of the source, or a
  spread copy of \<open>defaultData\<close> that shares its arrays.  A \<open>push\<close> or an indexed store on
  \<open>data.problemStatements\<close> reaches \<open>defaultData\<close> in the last case.
\<close>

definition alias_defaultData :: "document \<Rightarrow> file_store \<Rightarrow> file_store" where
  "alias_defaultData data' s =
     (if memoryData s = None \<and> source s = None then s\<lparr>defaultData := data'\<rparr> else s)"

definition json_createProblemStatement ::
    "js_error option \<Rightarrow> ps_input \<Rightarrow> file_store \<Rightarrow> change_result result \<times> file_store" where
  "json_createProblemStatement fault problemStatement s =
     (let data = read_data s in
      if list_ex (\<lambda>p. ps_id p = in_id problemStatement) (problemStatements data)
      then (Inr \<lparr>ch_id = in_id problemStatement, ch_changes = 0\<rparr>, s)
      else
        (let data' = data\<lparr>problemStatements :=
                             problemStatements data @ [new_problem_statement problemStatement]\<rparr>
         in case atomicWrite fault data' (alias_defaultData data' s) of
              (Inl err, s') \<Rightarrow> (Inl err, s')
            | (Inr _, s') \<Rightarrow> (Inr \<lparr>ch_id = in_id problemStatement, ch_changes = 1\<rparr>, s')))"

fun findIndex :: "('a \<Rightarrow> bool) \<Rightarrow> 'a list \<Rightarrow> nat option" where
  "findIndex P [] = None"
| "findIndex P (x # xs) = (if P x then Some 0 else map_option Suc (findIndex P xs))"

definition json_apply_updates :: "ps_updates \<Rightarrow> problem_statement \<Rightarrow> problem_statement" where
  "json_apply_updates updates current =
     (let n1 = (case up_title updates of Some t \<Rightarrow> current\<lparr>title := t\<rparr> | None \<Rightarrow> current);
          n2 = (case up_description updates of Some d \<Rightarrow> n1\<lparr>description := d\<rparr> | None \<Rightarrow> n1);
          n3 = (if up_max_selections updates \<noteq> JUndefined
                then n2\<lparr>maxSelections := Some (maxSel (up_max_selections updates))\<rparr> else n2);
          n4 = (if up_maxSelections updates \<noteq> JUndefined
                then n3\<lparr>maxSelections := Some (maxSel (up_maxSelections updates))\<rparr> else n3);
          n5 = (case up_category updates of Some c \<Rightarrow> n4\<lparr>category := c\<rparr> | None \<Rightarrow> n4);
          n6 = (case up_difficulty updates of Some d \<Rightarrow> n5\<lparr>difficulty := d\<rparr> | None \<Rightarrow> n5)
      in case up_technologies updates of
           Some ts \<Rightarrow> n6\<lparr>technologies := (case ts of Some l \<Rightarrow> l | None \<Rightarrow> [])\<rparr>
         | None \<Rightarrow> n6)"

definition json_updateProblemStatement ::
    "js_error option \<Rightarrow> string \<Rightarrow> ps_updates \<Rightarrow> file_store \<Rightarrow> change_result result \<times> file_store" where
  "json_updateProblemStatement fault id' updates s =
     (let data = read_data s in
      case findIndex (\<lambda>p. ps_id p = id') (problemStatements data) of
        None \<Rightarrow> (Inr \<lparr>ch_id = id', ch_changes = 0\<rparr>, s)
      | Some idx \<Rightarrow>
          (let next = json_apply_updates updates (problemStatements data ! idx);
               data' = data\<lparr>problemStatements := (problemStatements data)[idx := next]\<rparr>
           in case atomicWrite fault data' (alias_defaultData data' s) of
                (Inl err, s') \<Rightarrow> (Inl err, s')
              | (Inr _, s') \<Rightarrow> (Inr \<lparr>ch_id = id', ch_changes = 1\<rparr>, s')))"

text \<open>
  \<open>importFromJSON\<close>: the ids present before the import are collected once; an input is
  appended when its id is not among them.  \<open>None\<close> is a payload without an array of
  problem statements, for which nothing happens.
\<close>

definition json_importFromJSON ::
    "js_error option \<Rightarrow> ps_input list option \<Rightarrow> file_store \<Rightarrow> unit result \<times> file_store" where
  "json_importFromJSON fault jsonData s =
     (case jsonData of
        None \<Rightarrow> (Inr (), s)
      | Some inputs \<Rightarrow>
          (let data = read_data s;
               newIds = set (map ps_id (problemStatements data));
               data' = data\<lparr>problemStatements := problemStatements data @
                          map new_problem_statement (filter (\<lambda>p. in_id p \<notin> newIds) inputs)\<rparr>
           in atomicWrite fault data' (alias_defaultData data' s)))"

definition json_replaceFromJSON ::
    "js_error option \<Rightarrow> ps_input list option \<Rightarrow> file_store \<Rightarrow> bool result \<times> file_store" where
  "json_replaceFromJSON fault jsonData s =
     (case jsonData of
        None \<Rightarrow> (Inr False, s)
      | Some inputs \<Rightarrow>
          (case atomicWrite fault
                  \<lparr>problemStatements = map new_problem_statement inputs, registrations = []\<rparr> s of
             (Inl err, s') \<Rightarrow> (Inl err, s')
           | (Inr _, s') \<Rightarrow> (Inr True, s')))"

text \<open>A problem statement as \<open>getAllProblemStatements\<close> returns it.\<close>

record ps_view =
  v_id :: string
  v_title :: string
  v_description :: string
  max_selections :: jsnum
  v_category :: "string option"
  v_difficulty :: "string option"
  v_technologies :: "string list"
  selected_count :: nat
  is_available :: bool

text \<open>\<open>selected < maxSel\<close> for a count and a Number.\<close>

definition count_lt :: "nat \<Rightarrow> jsnum \<Rightarrow> bool" where
  "count_lt selected m =
     (case m of Fin q \<Rightarrow> of_nat selected < q | NaN \<Rightarrow> False | PosInf \<Rightarrow> True | NegInf \<Rightarrow> False)"

definition view_of :: "nat \<Rightarrow> problem_statement \<Rightarrow> ps_view" where
  "view_of selected ps =
     \<lparr>v_id = ps_id ps, v_title = title ps, v_description = description ps,
      max_selections = maxSel (stored_value (maxSelections ps)),
      v_category = or_null (category ps), v_difficulty = or_null (difficulty ps),
      v_technologies = technologies ps,
      selected_count = selected,
      is_available = count_lt selected (maxSel (stored_value (maxSelections ps)))\<rparr>"

text \<open>
  The file store counts the registrations of each id in a map and skips a registration
  whose \<open>problemStatementId\<close> is falsy (the empty string).
\<close>

definition json_getAllProblemStatements :: "file_store \<Rightarrow> ps_view list" where
  "json_getAllProblemStatements s =
     (let data = read_data s;
          counted = filter (\<lambda>r. problemStatementId r \<noteq> []) (registrations data)
      in map (\<lambda>ps. view_of (length (filter (\<lambda>r. problemStatementId r = ps_id ps) counted)) ps)
           (problemStatements data))"

section \<open>Transactional backend (mongo\_store)\<close>

text \<open>
  The state of a \<open>MongoStore\<close>: whether \<open>this.db\<close> and \<open>this.collections\<close> are set, and
  the documents of the two collections in their natural order.  The unique indexes are
  not part of the state: an insert that the engine rejects is a fault of the environment.
\<close>

record mongo_store =
  connected :: bool
  ps_coll :: "problem_statement list"
  regs_coll :: "registration list"

text \<open>\<open>updateOne\<close> changes the first document that matches, \<open>deleteOne\<close> removes it.\<close>

fun updateOne :: "('a \<Rightarrow> bool) \<Rightarrow> ('a \<Rightarrow> 'a) \<Rightarrow> 'a list \<Rightarrow> 'a list" where
  "updateOne P f [] = []"
| "updateOne P f (x # xs) = (if P x then f x # xs else x # updateOne P f xs)"

fun deleteOne :: "('a \<Rightarrow> bool) \<Rightarrow> 'a list \<Rightarrow> 'a list" where
  "deleteOne P [] = []"
| "deleteOne P (x # xs) = (if P x then xs else x # deleteOne P xs)"

text \<open>\<open>{ $inc: { selectedCount: d } }\<close>; a missing field counts as 0.\<close>

definition inc_selectedCount :: "int \<Rightarrow> problem_statement \<Rightarrow> problem_statement" where
  "inc_selectedCount d p = p\<lparr>selectedCount := Some ((case selectedCount p of Some c \<Rightarrow> c | None \<Rightarrow> 0) + d)\<rparr>"

text \<open>
  The clean-up of duplicate team numbers, the same code in \<open>init\<close> and in
  \<open>getAllRegistrations\<close>: the aggregation yields the team numbers that occur more than
  once, and for each of them every document after the first is deleted.
\<close>

definition duplicate_groups :: "registration list \<Rightarrow> string list" where
  "duplicate_groups regs =
     filter (\<lambda>t. 1 < length (filter (\<lambda>r. teamNumber r = t) regs)) (remdups (map teamNumber regs))"

fun delete_rest :: "string \<Rightarrow> registration list \<Rightarrow> registration list" where
  "delete_rest t [] = []"
| "delete_rest t (r # rs) =
     (if teamNumber r = t then r # filter (\<lambda>x. teamNumber x \<noteq> t) rs else r # delete_rest t rs)"

record cleanup_env =
  aggregateResult :: "js_error option"
  deleteManyResult :: "nat \<Rightarrow> js_error option"

fun cleanup_loop :: "(nat \<Rightarrow> js_error option) \<Rightarrow> nat \<Rightarrow> string list \<Rightarrow> registration list
    \<Rightarrow> unit result \<times> registration list" where
  "cleanup_loop faults i [] regs = (Inr (), regs)"
| "cleanup_loop faults i (t # ts) regs =
     (case faults i of
        Some err \<Rightarrow> (Inl err, regs)
      | None \<Rightarrow> cleanup_loop faults (Suc i) ts (delete_rest t regs))"

definition remove_duplicates :: "cleanup_env \<Rightarrow> registration list \<Rightarrow> unit result \<times> registration list" where
  "remove_duplicates c regs =
     (case aggregateResult c of
        Some err \<Rightarrow> (Inl err, regs)
      | None \<Rightarrow> cleanup_loop (deleteManyResult c) 0 (duplicate_groups regs) regs)"

text \<open>
  What the server answers during \<open>init\<close>: the result of connecting, of creating the
  unique index on \<open>teamNumber\<close>, of dropping it, and of the clean-up.
\<close>

record init_env =
  connectResult :: "js_error option"
  teamIndexResult :: "js_error option"
  dropIndexResult :: "js_error option"
  initCleanup :: cleanup_env

definition index_conflict :: "js_error \<Rightarrow> bool" where
  "index_conflict e = (err_code e = NumCode 11000 \<or> err_code e = NumCode 85 \<or> err_code e = NumCode 86)"

text \<open>
  \<open>init\<close>: nothing when \<open>this.db\<close> is set.  Otherwise connect, create the indexes (every
  error of that part is caught; a conflict on the team number index drops the index and
  removes duplicates), and insert the default catalog when the collection is empty.
\<close>

definition mongo_init :: "init_env \<Rightarrow> mongo_store \<Rightarrow> unit result \<times> mongo_store" where
  "mongo_init ie s =
     (if connected s then (Inr (), s)
      else case connectResult ie of
        Some err \<Rightarrow> (Inl err, s)
      | None \<Rightarrow>
          (let s1 = s\<lparr>connected := True\<rparr>;
               s2 = (case teamIndexResult ie of
                       None \<Rightarrow> s1
                     | Some e \<Rightarrow>
                         if index_conflict e \<and> dropIndexResult ie = None
                         then s1\<lparr>regs_coll := snd (remove_duplicates (initCleanup ie) (regs_coll s1))\<rparr>
                         else s1)
           in if length (ps_coll s2) = 0 then (Inr (), s2\<lparr>ps_coll := defaults\<rparr>) else (Inr (), s2)))"

text \<open>\<open>if (!this.collections) await this.init();\<close>\<close>

definition ensure_init :: "init_env \<Rightarrow> mongo_store \<Rightarrow> unit result \<times> mongo_store" where
  "ensure_init ie s = (if connected s then (Inr (), s) else mongo_init ie s)"

text \<open>\<open>resetAll\<close>: empty both collections, then call \<open>init\<close> again.\<close>

definition mongo_resetAll :: "init_env \<Rightarrow> mongo_store \<Rightarrow> bool result \<times> mongo_store" where
  "mongo_resetAll ie s =
     (case ensure_init ie s of
        (Inl err, s0) \<Rightarrow> (Inl err, s0)
      | (Inr _, s0) \<Rightarrow>
          (let s1 = s0\<lparr>regs_coll := []\<rparr>;
               s2 = s1\<lparr>ps_coll := []\<rparr>
           in case mongo_init ie s2 of
                (Inl err, s3) \<Rightarrow> (Inl err, s3)
              | (Inr _, s3) \<Rightarrow> (Inr True, s3)))"

text \<open>
  \<open>$lt: [{ $ifNull: ['$selectedCount', 0] }, { $literal: maxSel }]\<close>: the engine orders
  NaN below every number.
\<close>

definition selected_lt :: "int \<Rightarrow> jsnum \<Rightarrow> bool" where
  "selected_lt c m =
     (case m of Fin q \<Rightarrow> of_int c < q | NaN \<Rightarrow> False | PosInf \<Rightarrow> True | NegInf \<Rightarrow> False)"

record txn_env =
  insertResult :: "js_error option"
  clock :: string

text \<open>
  The callback of \<open>session.withTransaction\<close>.  A plain \<open>return\<close> ends the callback
  normally, so what was written before it is committed; a thrown error aborts.
\<close>

definition transaction_body ::
    "txn_env \<Rightarrow> registration_input \<Rightarrow> string \<Rightarrow> mongo_store \<Rightarrow> reg_result option result \<times> mongo_store" where
  "transaction_body e registration target s =
     (if list_ex (\<lambda>r. teamNumber r = target) (regs_coll s) then (Inr None, s)
      else case find (\<lambda>p. ps_id p = problemStatementId registration) (ps_coll s) of
        None \<Rightarrow> (Inr None, s)
      | Some problem \<Rightarrow>
          (let maxSel' = maxSel (stored_value (maxSelections problem));
               actualCount = int (length (filter (\<lambda>r. problemStatementId r = ps_id problem) (regs_coll s)));
               currentSelected = (case selectedCount problem of Some c \<Rightarrow> c | None \<Rightarrow> 0);
               s1 = (if currentSelected \<noteq> actualCount
                     then s\<lparr>ps_coll := updateOne (\<lambda>p. ps_id p = ps_id problem)
                                           (\<lambda>p. p\<lparr>selectedCount := Some actualCount\<rparr>) (ps_coll s)\<rparr>
                     else s);
               reserve = (\<lambda>p. ps_id p = ps_id problem \<and>
                                selected_lt (case selectedCount p of Some c \<Rightarrow> c | None \<Rightarrow> 0) maxSel')
           in if \<not> list_ex reserve (ps_coll s1) then (Inr None, s1)
              else
                (let s2 = s1\<lparr>ps_coll := updateOne reserve (inc_selectedCount 1) (ps_coll s1)\<rparr>;
                     record = \<lparr>teamNumber = target, teamName = teamName registration,
                               teamLeader = teamLeader registration,
                               problemStatementId = problemStatementId registration,
                               registrationDateTime = clock e\<rparr>
                 in case insertResult e of
                      None \<Rightarrow> (Inr (Some \<lparr>res_id = target, changes = 1\<rparr>),
                                s2\<lparr>regs_coll := regs_coll s2 @ [record]\<rparr>)
                    | Some err \<Rightarrow>
                        (Inl err,
                         s2\<lparr>ps_coll := updateOne (\<lambda>p. ps_id p = problemStatementId registration)
                                          (inc_selectedCount (- 1)) (ps_coll s2)\<rparr>))))"

text \<open>
  \<open>session.withTransaction\<close>: the writes of a callback that throws are rolled back and
  the error is passed on; the writes of a callback that returns are committed.  A failing
  commit and the driver's repetition of the callback after a transient error are left
  out: the callback is run once.
\<close>

definition withTransaction ::
    "(mongo_store \<Rightarrow> 'a result \<times> mongo_store) \<Rightarrow> mongo_store \<Rightarrow> 'a result \<times> mongo_store" where
  "withTransaction body s =
     (case body s of (Inl err, _) \<Rightarrow> (Inl err, s) | (Inr v, s') \<Rightarrow> (Inr v, s'))"

text \<open>
  \<open>createRegistrationAtomic\<close>: the transaction, and the outer \<open>catch\<close> that turns a
  duplicate key error (code 11000) into \<open>null\<close>.
\<close>

definition mongo_createRegistrationAtomic ::
    "init_env \<Rightarrow> txn_env \<Rightarrow> registration_input \<Rightarrow> mongo_store \<Rightarrow> reg_result option result \<times> mongo_store" where
  "mongo_createRegistrationAtomic ie e registration s =
     (case ensure_init ie s of
        (Inl err, s0) \<Rightarrow> (Inl err, s0)
      | (Inr _, s0) \<Rightarrow>
          (let target = trim (teamNumber registration) in
           case withTransaction (transaction_body e registration target) s0 of
             (Inl error, s1) \<Rightarrow> if err_code error = NumCode 11000 then (Inr None, s1) else (Inl error, s1)
           | (Inr result, s1) \<Rightarrow> (Inr result, s1)))"

text \<open>
  \<open>deleteRegistration\<close>: find and delete the first registration with the trimmed team
  number; when one was deleted and its \<open>problemStatementId\<close> is truthy, decrement the
  cached counter of that problem statement.
\<close>

definition mongo_deleteRegistration :: "init_env \<Rightarrow> string \<Rightarrow> mongo_store \<Rightarrow> nat result \<times> mongo_store" where
  "mongo_deleteRegistration ie teamNumber' s =
     (case ensure_init ie s of
        (Inl err, s0) \<Rightarrow> (Inl err, s0)
      | (Inr _, s0) \<Rightarrow>
          (let target = trim teamNumber' in
           case find (\<lambda>r. teamNumber r = target) (regs_coll s0) of
             None \<Rightarrow> (Inr 0, s0)
           | Some reg \<Rightarrow>
               (let s1 = s0\<lparr>regs_coll := deleteOne (\<lambda>r. teamNumber r = target) (regs_coll s0)\<rparr>
                in if problemStatementId reg \<noteq> []
                   then (Inr 1, s1\<lparr>ps_coll := updateOne (\<lambda>p. ps_id p = problemStatementId reg)
                                                (inc_selectedCount (- 1)) (ps_coll s1)\<rparr>)
                   else (Inr 1, s1))))"

text \<open>The catalog operations of the document store.\<close>

definition mongo_createProblemStatement ::
    "init_env \<Rightarrow> js_error option \<Rightarrow> ps_input \<Rightarrow> mongo_store \<Rightarrow> change_result result \<times> mongo_store" where
  "mongo_createProblemStatement ie insertFault problemStatement s =
     (case ensure_init ie s of
        (Inl err, s0) \<Rightarrow> (Inl err, s0)
      | (Inr _, s0) \<Rightarrow>
          (case insertFault of
             None \<Rightarrow> (Inr \<lparr>ch_id = in_id problemStatement, ch_changes = 1\<rparr>,
                       s0\<lparr>ps_coll := ps_coll s0 @ [new_problem_statement problemStatement]\<rparr>)
           | Some e \<Rightarrow> (Inr \<lparr>ch_id = in_id problemStatement, ch_changes = 0\<rparr>, s0)))"

text \<open>
  The \<open>$set\<close> document of \<open>updateProblemStatement\<close>; the limit is
  \<open>updates.max_selections ?? updates.maxSelections\<close>.
\<close>

definition mongo_apply_updates :: "ps_updates \<Rightarrow> problem_statement \<Rightarrow> problem_statement" where
  "mongo_apply_updates updates current =
     (let n1 = (case up_title updates of Some t \<Rightarrow> current\<lparr>title := t\<rparr> | None \<Rightarrow> current);
          n2 = (case up_description updates of Some d \<Rightarrow> n1\<lparr>description := d\<rparr> | None \<Rightarrow> n1);
          n3 = (case up_category updates of Some c \<Rightarrow> n2\<lparr>category := c\<rparr> | None \<Rightarrow> n2);
          n4 = (case up_difficulty updates of Some d \<Rightarrow> n3\<lparr>difficulty := d\<rparr> | None \<Rightarrow> n3);
          n5 = (case up_technologies updates of
                  Some ts \<Rightarrow> n4\<lparr>technologies := (case ts of Some l \<Rightarrow> l | None \<Rightarrow> [])\<rparr>
                | None \<Rightarrow> n4)
      in if up_max_selections updates \<noteq> JUndefined \<or> up_maxSelections updates \<noteq> JUndefined
         then (let val = (if up_max_selections updates = JUndefined \<or> up_max_selections updates = JNull
                          then up_maxSelections updates else up_max_selections updates)
               in n5\<lparr>maxSelections := Some (maxSel val)\<rparr>)
         else n5)"

definition mongo_updateProblemStatement ::
    "init_env \<Rightarrow> string \<Rightarrow> ps_updates \<Rightarrow> mongo_store \<Rightarrow> change_result result \<times> mongo_store" where
  "mongo_updateProblemStatement ie id' updates s =
     (case ensure_init ie s of
        (Inl err, s0) \<Rightarrow> (Inl err, s0)
      | (Inr _, s0) \<Rightarrow>
          (let modifiedCount =
                 (case find (\<lambda>p. ps_id p = id') (ps_coll s0) of
                    None \<Rightarrow> 0
                  | Some p \<Rightarrow> if mongo_apply_updates updates p = p then 0 else 1)
           in (Inr \<lparr>ch_id = id', ch_changes = modifiedCount\<rparr>,
               s0\<lparr>ps_coll := updateOne (\<lambda>p. ps_id p = id') (mongo_apply_updates updates) (ps_coll s0)\<rparr>)))"

text \<open>
  \<open>insertMany\<close>: all documents, or the first \<open>k\<close> of them before the server reports an
  error.
\<close>

definition insertMany :: "(nat \<times> js_error) option \<Rightarrow> 'a list \<Rightarrow> 'a list \<Rightarrow> unit result \<times> 'a list" where
  "insertMany fault docs coll =
     (case fault of
        None \<Rightarrow> (Inr (), coll @ docs)
      | Some (k, err) \<Rightarrow> (Inl err, coll @ take k docs))"

definition mongo_importFromJSON ::
    "init_env \<Rightarrow> (nat \<times> js_error) option \<Rightarrow> ps_input list option \<Rightarrow> mongo_store \<Rightarrow> unit result \<times> mongo_store" where
  "mongo_importFromJSON ie fault jsonData s =
     (case jsonData of
        None \<Rightarrow> (Inr (), s)
      | Some inputs \<Rightarrow>
          (case ensure_init ie s of
             (Inl err, s0) \<Rightarrow> (Inl err, s0)
           | (Inr _, s0) \<Rightarrow>
               (let existingIds = set (map ps_id (ps_coll s0));
                    toInsert = map new_problem_statement (filter (\<lambda>p. in_id p \<notin> existingIds) inputs)
                in if toInsert = [] then (Inr (), s0)
                   else case insertMany fault toInsert (ps_coll s0) of
                          (r, ps') \<Rightarrow> (r, s0\<lparr>ps_coll := ps'\<rparr>))))"

definition mongo_replaceFromJSON ::
    "init_env \<Rightarrow> (nat \<times> js_error) option \<Rightarrow> ps_input list option \<Rightarrow> mongo_store \<Rightarrow> bool result \<times> mongo_store" where
  "mongo_replaceFromJSON ie fault jsonData s =
     (case jsonData of
        None \<Rightarrow> (Inr False, s)
      | Some inputs \<Rightarrow>
          (case ensure_init ie s of
             (Inl err, s0) \<Rightarrow> (Inl err, s0)
           | (Inr _, s0) \<Rightarrow>
               (let s1 = s0\<lparr>regs_coll := [], ps_coll := []\<rparr>;
                    docs = map new_problem_statement inputs
                in if docs = [] then (Inr True, s1)
                   else case insertMany fault docs (ps_coll s1) of
                          (Inl err, ps') \<Rightarrow> (Inl err, s1\<lparr>ps_coll := ps'\<rparr>)
                        | (Inr _, ps') \<Rightarrow> (Inr True, s1\<lparr>ps_coll := ps'\<rparr>))))"

definition mongo_getAllProblemStatements :: "init_env \<Rightarrow> mongo_store \<Rightarrow> ps_view list result \<times> mongo_store" where
  "mongo_getAllProblemStatements ie s =
     (case ensure_init ie s of
        (Inl err, s0) \<Rightarrow> (Inl err, s0)
      | (Inr _, s0) \<Rightarrow>
          (Inr (map (\<lambda>p. view_of (length (filter (\<lambda>r. problemStatementId r = ps_id p) (regs_coll s0))) p)
                  (ps_coll s0)), s0))"

section \<open>Reading the registrations\<close>

record reg_view =
  team_number :: string
  team_name :: string
  team_leader :: string
  problem_title :: string
  problem_category :: "string option"
  problem_difficulty :: "string option"
  registration_date_time :: string
  registration_date_time_ist :: string

text \<open>\<open>idToPs.get(id)\<close> for \<open>new Map(problems.map(p => [p.id, p]))\<close>: a later entry wins.\<close>

definition idToPs :: "problem_statement list \<Rightarrow> string \<Rightarrow> problem_statement option" where
  "idToPs problems i = find (\<lambda>p. ps_id p = i) (rev problems)"

definition registration_view ::
    "(string \<Rightarrow> string) \<Rightarrow> problem_statement list \<Rightarrow> registration \<Rightarrow> reg_view" where
  "registration_view localeString problems r =
     \<lparr>team_number = teamNumber r, team_name = teamName r, team_leader = teamLeader r,
      problem_title = (case idToPs problems (problemStatementId r) of Some p \<Rightarrow> title p | None \<Rightarrow> []),
      problem_category =
        (case idToPs problems (problemStatementId r) of Some p \<Rightarrow> or_null (category p) | None \<Rightarrow> None),
      problem_difficulty =
        (case idToPs problems (problemStatementId r) of Some p \<Rightarrow> or_null (difficulty p) | None \<Rightarrow> None),
      registration_date_time = registrationDateTime r,
      registration_date_time_ist = localeString (registrationDateTime r) @ '' IST''\<rparr>"

fun starts_with :: "string \<Rightarrow> string \<Rightarrow> bool" where
  "starts_with str [] = True"
| "starts_with [] (c # cs) = False"
| "starts_with (x # xs) (c # cs) = (x = c \<and> starts_with xs cs)"

fun str_includes :: "string \<Rightarrow> string \<Rightarrow> bool" where
  "str_includes [] sub = (sub = [])"
| "str_includes (x # xs) sub = (starts_with (x # xs) sub \<or> str_includes xs sub)"

text \<open>The test both the store and the request handler apply to a caught error.\<close>

definition isDuplicateKey :: "js_error \<Rightarrow> bool" where
  "isDuplicateKey error =
     (err_code error = NumCode 11000 \<or> str_includes (err_message error) ''E11000''
      \<or> str_includes (err_message error) ''duplicate key'')"

text \<open>
  What the server answers to \<open>getAllRegistrations\<close>: the first pair of reads, the
  clean-up, the second pair of reads; and how the runtime formats a date.
\<close>

record read_env =
  firstRead :: "js_error option"
  readCleanup :: cleanup_env
  retryRead :: "js_error option"
  toLocaleString :: "string \<Rightarrow> string"

definition mongo_getAllRegistrations ::
    "init_env \<Rightarrow> read_env \<Rightarrow> mongo_store \<Rightarrow> reg_view list result \<times> mongo_store" where
  "mongo_getAllRegistrations ie re s =
     (case ensure_init ie s of
        (Inl err, s0) \<Rightarrow> (Inl err, s0)
      | (Inr _, s0) \<Rightarrow>
          (case firstRead re of
             None \<Rightarrow> (Inr (map (registration_view (toLocaleString re) (ps_coll s0)) (regs_coll s0)), s0)
           | Some error \<Rightarrow>
               if isDuplicateKey error then
                 (case remove_duplicates (readCleanup re) (regs_coll s0) of
                    (Inl retryError, regs') \<Rightarrow> (Inr [], s0\<lparr>regs_coll := regs'\<rparr>)
                  | (Inr _, regs') \<Rightarrow>
                      (case retryRead re of
                         Some retryError \<Rightarrow> (Inr [], s0\<lparr>regs_coll := regs'\<rparr>)
                       | None \<Rightarrow>
                           (Inr (map (registration_view (toLocaleString re) (ps_coll s0)) regs'),
                            s0\<lparr>regs_coll := regs'\<rparr>)))
               else (Inl error, s0)))"

text \<open>The handler of \<open>GET /api/registrations\<close> in \<open>app.js\<close>, over the document store.\<close>

record team =
  teamNo :: string
  department :: string

record enriched_view = reg_view +
  team_display_number :: string
  view_department :: "string option"

definition enrich :: "(string \<Rightarrow> team option) \<Rightarrow> reg_view \<Rightarrow> enriched_view" where
  "enrich teamNumberToTeam r =
     (let team = teamNumberToTeam (trim (team_number r)) in
      reg_view.extend r
        \<lparr>team_display_number =
           (case team of Some t \<Rightarrow> if teamNo t \<noteq> [] then teamNo t else team_number r
            | None \<Rightarrow> team_number r),
         view_department =
           (case team of Some t \<Rightarrow> if department t \<noteq> [] then Some (department t) else None
            | None \<Rightarrow> None)\<rparr>)"

datatype response = Json200 "enriched_view list" | Json500 string

definition get_registrations_handler ::
    "(string \<Rightarrow> team option) \<Rightarrow> init_env \<Rightarrow> read_env \<Rightarrow> read_env \<Rightarrow> mongo_store \<Rightarrow> response \<times> mongo_store" where
  "get_registrations_handler teamNumberToTeam ie re1 re2 s =
     (case mongo_getAllRegistrations ie re1 s of
        (Inr regs, s1) \<Rightarrow> (Json200 (map (enrich teamNumberToTeam) regs), s1)
      | (Inl error, s1) \<Rightarrow>
          if isDuplicateKey error then
            (case mongo_getAllRegistrations ie re2 s1 of
               (Inr regs, s2) \<Rightarrow> (Json200 (map (enrich teamNumberToTeam) regs), s2)
             | (Inl retryError, s2) \<Rightarrow>
                 (Json500 ''Failed to fetch registrations due to database inconsistency. Please contact administrator.'', s2))
          else (Json500 ''Failed to fetch registrations'', s1))"

text \<open>An attempt finds the lock held when the exclusive creation fails with \<open>EEXIST\<close>.\<close>

definition lockHeld :: "attempt_env \<Rightarrow> bool" where
  "lockHeld e = (case lockResult e of Some err \<Rightarrow> err_code err = StrCode ''EEXIST'' | None \<Rightarrow> False)"

section \<open>Properties of the file system trace\<close>

text \<open>The events that touch the lock marker.\<close>

definition lock_event :: "fs_event \<Rightarrow> bool" where
  "lock_event ev = (ev = LockCreated \<or> ev = LockConflict \<or> ev = LockError \<or> ev = LockUnlinked)"

text \<open>
  A trace respects the lock when the marker this call created (\<open>held\<close>) is unlinked
  before every wait for a retry and before the end of the call, and is never created
  while it is still held.
\<close>

fun lock_released :: "bool \<Rightarrow> fs_event list \<Rightarrow> bool" where
  "lock_released held [] = (\<not> held)"
| "lock_released held (LockCreated # t) = (\<not> held \<and> lock_released True t)"
| "lock_released held (LockUnlinked # t) = lock_released False t"
| "lock_released held (Slept n # t) = (\<not> held \<and> lock_released held t)"
| "lock_released held (ev # t) = lock_released held t"

section \<open>Sequences of operations and the invariants\<close>

text \<open>The number of registrations that reference a problem statement id.\<close>

definition regCount :: "string \<Rightarrow> registration list \<Rightarrow> nat" where
  "regCount pid regs = length (filter (\<lambda>r. problemStatementId r = pid) regs)"

text \<open>At most one registration per team number, compared after trimming.\<close>

definition unique_teams :: "registration list \<Rightarrow> bool" where
  "unique_teams regs = distinct (map (\<lambda>r. trim (teamNumber r)) regs)"

text \<open>
  The three checks of the file backend's critical section on the document it read, and
  the record it appends when they pass.
\<close>

definition accepts :: "registration_input \<Rightarrow> document \<Rightarrow> bool" where
  "accepts registration d =
     (\<not> list_ex (\<lambda>r. trim (teamNumber r) = trim (teamNumber registration)) (registrations d) \<and>
      (case find (\<lambda>p. ps_id p = problemStatementId registration) (problemStatements d) of
         None \<Rightarrow> False
       | Some ps \<Rightarrow> \<not> count_ge (regCount (ps_id ps) (registrations d)) (maxSelections ps)))"

definition new_record :: "string \<Rightarrow> registration_input \<Rightarrow> registration" where
  "new_record stamp registration =
     \<lparr>teamNumber = trim (teamNumber registration), teamName = teamName registration,
      teamLeader = teamLeader registration, problemStatementId = problemStatementId registration,
      registrationDateTime = stamp\<rparr>"

text \<open>The documents a \<open>DatabaseManager\<close> holds: \<open>defaultData\<close>, the in-memory copy, the source.\<close>

definition held_documents :: "file_store \<Rightarrow> document list" where
  "held_documents s =
     defaultData s # (case memoryData s of Some m \<Rightarrow> [m] | None \<Rightarrow> [])
       @ (case source s of Some d \<Rightarrow> [d] | None \<Rightarrow> [])"

text \<open>
  A document is within the capacity \<open>N\<close> of the id \<open>pid\<close> when every problem statement
  with that id has \<open>maxSelections = N\<close> and at most \<open>N\<close> registrations reference it.
\<close>

definition within_capacity :: "string \<Rightarrow> nat \<Rightarrow> document \<Rightarrow> bool" where
  "within_capacity pid N d =
     (list_all (\<lambda>p. ps_id p = pid \<longrightarrow> maxSelections p = Some (Fin (of_nat N))) (problemStatements d)
      \<and> regCount pid (registrations d) \<le> N)"

text \<open>Register and delete calls on the file backend, with what the file system answers.\<close>

datatype json_op = Register "nat \<Rightarrow> attempt_env" registration_input | Delete "js_error option" string

fun json_step :: "json_op \<Rightarrow> file_store \<Rightarrow> file_store" where
  "json_step (Register env registration) s = fst (snd (json_createRegistrationAtomic env registration s))"
| "json_step (Delete fault teamNumber') s = snd (json_deleteRegistration fault teamNumber' s)"

fun json_run :: "json_op list \<Rightarrow> file_store \<Rightarrow> file_store" where
  "json_run [] s = s"
| "json_run (op # ops) s = json_run ops (json_step op s)"

text \<open>The same for the document store.\<close>

datatype mongo_op = MRegister txn_env registration_input | MDelete string

fun mongo_step :: "init_env \<Rightarrow> mongo_op \<Rightarrow> mongo_store \<Rightarrow> mongo_store" where
  "mongo_step ie (MRegister e registration) s = snd (mongo_createRegistrationAtomic ie e registration s)"
| "mongo_step ie (MDelete teamNumber') s = snd (mongo_deleteRegistration ie teamNumber' s)"

fun mongo_run :: "init_env \<Rightarrow> mongo_op list \<Rightarrow> mongo_store \<Rightarrow> mongo_store" where
  "mongo_run ie [] s = s"
| "mongo_run ie (op # ops) s = mongo_run ie ops (mongo_step ie op s)"

text \<open>
  A connected document store is within the capacity \<open>N\<close> of \<open>pid\<close> when the ids of its
  problem statements are distinct, the one with id \<open>pid\<close> has \<open>maxSelections = N\<close>, and
  at most \<open>N\<close> registrations reference it.
\<close>

definition mongo_within_capacity :: "string \<Rightarrow> nat \<Rightarrow> mongo_store \<Rightarrow> bool" where
  "mongo_within_capacity pid N s =
     (connected s \<and> distinct (map ps_id (ps_coll s))
      \<and> list_all (\<lambda>p. ps_id p = pid \<longrightarrow> maxSelections p = Some (Fin (of_nat N))) (ps_coll s)
      \<and> regCount pid (regs_coll s) \<le> N)"

text \<open>
  The registrations of a connected document store are well formed when every stored team
  number is trimmed, as \<open>createRegistrationAtomic\<close> stores it, and no two are equal.
\<close>

definition mongo_unique_teams :: "mongo_store \<Rightarrow> bool" where
  "mongo_unique_teams s =
     (connected s \<and> list_all (\<lambda>r. trim (teamNumber r) = teamNumber r) (regs_coll s)
      \<and> distinct (map teamNumber (regs_coll s)))"

text \<open>
  The reconciliation step of the transaction on its own: the cached counter of the first
  problem statement with the id is set to the number of registrations that reference it.
\<close>

definition reconcile :: "string \<Rightarrow> mongo_store \<Rightarrow> mongo_store" where
  "reconcile pid s =
     s\<lparr>ps_coll := updateOne (\<lambda>p. ps_id p = pid)
                     (\<lambda>p. p\<lparr>selectedCount := Some (int (regCount pid (regs_coll s)))\<rparr>) (ps_coll s)\<rparr>"

text \<open>A call failed when it did not return a registration result.\<close>

definition succeeded :: "reg_result option result \<Rightarrow> bool" where
  "succeeded r = (case r of Inr (Some x) \<Rightarrow> True | _ \<Rightarrow> False)"

section \<open>The floor of maxSelections\<close>

text \<open>A Number that is an integer and at least 1.\<close>

definition is_integer_ge1 :: "jsnum \<Rightarrow> bool" where
  "is_integer_ge1 n = (case n of Fin q \<Rightarrow> 1 \<le> q \<and> q = of_int \<lfloor>q\<rfloor> | _ \<Rightarrow> False)"

text \<open>
  A supplied limit is integral when it is not of type Number (it then goes through
  \<open>parseInt\<close>) or is a finite Number without a fraction.
\<close>

definition integral_input :: "jsval \<Rightarrow> bool" where
  "integral_input v =
     (case v of JNum n \<Rightarrow> (case n of Fin q \<Rightarrow> q = of_int \<lfloor>q\<rfloor> | _ \<Rightarrow> False) | _ \<Rightarrow> True)"

text \<open>
  What the coercion yields for integral inputs: an integer that is at least 1, or
  \<open>Infinity\<close> when the digits of a string exceed the range of a double.  In the JSON
  file \<open>Infinity\<close> is written as \<open>null\<close>.
\<close>

definition floored :: "jsnum \<Rightarrow> bool" where
  "floored n = (is_integer_ge1 n \<or> n = PosInf)"

definition stored_floored :: "jsnum option \<Rightarrow> bool" where
  "stored_floored m = (case m of None \<Rightarrow> True | Some n \<Rightarrow> floored n)"

definition catalog_floored :: "problem_statement list \<Rightarrow> bool" where
  "catalog_floored pss = list_all (\<lambda>p. stored_floored (maxSelections p)) pss"

text \<open>The four writers of the catalog as one operation, with the limits a call supplies.\<close>

datatype catalog_op =
  Create ps_input | Update string ps_updates | Import "ps_input list option" | Replace "ps_input list option"

fun supplied_limits :: "catalog_op \<Rightarrow> jsval list" where
  "supplied_limits (Create p) = [in_maxSelections p]"
| "supplied_limits (Update i u) = [up_max_selections u, up_maxSelections u]"
| "supplied_limits (Import None) = []"
| "supplied_limits (Import (Some ps)) = map in_maxSelections ps"
| "supplied_limits (Replace None) = []"
| "supplied_limits (Replace (Some ps)) = map in_maxSelections ps"

record catalog_env =
  writeFault :: "js_error option"
  insertFault :: "js_error option"
  insertManyFault :: "(nat \<times> js_error) option"

fun json_catalog_step :: "catalog_env \<Rightarrow> catalog_op \<Rightarrow> file_store \<Rightarrow> file_store" where
  "json_catalog_step ce (Create p) s = snd (json_createProblemStatement (writeFault ce) p s)"
| "json_catalog_step ce (Update i u) s = snd (json_updateProblemStatement (writeFault ce) i u s)"
| "json_catalog_step ce (Import j) s = snd (json_importFromJSON (writeFault ce) j s)"
| "json_catalog_step ce (Replace j) s = snd (json_replaceFromJSON (writeFault ce) j s)"

fun mongo_catalog_step :: "init_env \<Rightarrow> catalog_env \<Rightarrow> catalog_op \<Rightarrow> mongo_store \<Rightarrow> mongo_store" where
  "mongo_catalog_step ie ce (Create p) s = snd (mongo_createProblemStatement ie (insertFault ce) p s)"
| "mongo_catalog_step ie ce (Update i u) s = snd (mongo_updateProblemStatement ie i u s)"
| "mongo_catalog_step ie ce (Import j) s = snd (mongo_importFromJSON ie (insertManyFault ce) j s)"
| "mongo_catalog_step ie ce (Replace j) s = snd (mongo_replaceFromJSON ie (insertManyFault ce) j s)"

text \<open>The views of the document store, the empty list when \<open>init\<close> throws.\<close>

definition mongo_views :: "init_env \<Rightarrow> mongo_store \<Rightarrow> ps_view list" where
  "mongo_views ie s = (case fst (mongo_getAllProblemStatements ie s) of Inl err \<Rightarrow> [] | Inr vs \<Rightarrow> vs)"

section \<open>Example data\<close>

definition held_env :: "nat \<Rightarrow> attempt_env" where
  "held_env i = \<lparr>lockResult = Some (JsError (StrCode ''EEXIST'') ''EEXIST: file already exists''),
                  writeResult = None, now = ''2025-01-01T00:00:00.000Z''\<rparr>"

definition free_env :: "nat \<Rightarrow> attempt_env" where
  "free_env i = \<lparr>lockResult = None, writeResult = None, now = ''2025-01-01T00:00:00.000Z''\<rparr>"

definition empty_doc :: document where
  "empty_doc = \<lparr>problemStatements = [], registrations = []\<rparr>"

definition reg_T3 :: registration_input where
  "reg_T3 = \<lparr>teamNumber = '' T3 '', teamName = ''Gamma'', teamLeader = ''Carol'',
             problemStatementId = ''ps001''\<rparr>"

definition reg_T1 :: registration where
  "reg_T1 = \<lparr>teamNumber = ''T1'', teamName = ''Alpha'', teamLeader = ''Alice'',
             problemStatementId = ''ps001'', registrationDateTime = ''2025-01-01T00:00:00.000Z''\<rparr>"

definition reg_T2 :: registration where
  "reg_T2 = \<lparr>teamNumber = ''T2'', teamName = ''Beta'', teamLeader = ''Bob'',
             problemStatementId = ''ps001'', registrationDateTime = ''2025-01-01T00:00:01.000Z''\<rparr>"

text \<open>A small catalog: one statement with two slots and one with a single slot.\<close>

definition catalog :: "problem_statement list" where
  "catalog =
     [\<lparr>ps_id = ''ps001'', title = ''A'', description = ''first'', maxSelections = Some (Fin 2),
       category = None, difficulty = None, technologies = [], selectedCount = None\<rparr>,
      \<lparr>ps_id = ''ps002'', title = ''B'', description = ''second'', maxSelections = Some (Fin 1),
       category = None, difficulty = None, technologies = [], selectedCount = None\<rparr>]"

definition one_doc :: document where
  "one_doc = \<lparr>problemStatements = catalog, registrations = [reg_T1]\<rparr>"

definition file_store0 :: file_store where
  "file_store0 = \<lparr>useBlob = False, memoryData = Some one_doc, defaultData = empty_doc, source = Some one_doc\<rparr>"

definition blob_store0 :: file_store where
  "blob_store0 = \<lparr>useBlob = True, memoryData = Some one_doc, defaultData = empty_doc, source = Some one_doc\<rparr>"

definition no_init :: init_env where
  "no_init = \<lparr>connectResult = None, teamIndexResult = None, dropIndexResult = None,
              initCleanup = \<lparr>aggregateResult = None, deleteManyResult = (\<lambda>i. None)\<rparr>\<rparr>"

definition mongo_store0 :: mongo_store where
  "mongo_store0 = \<lparr>connected = True, ps_coll = catalog, regs_coll = [reg_T1]\<rparr>"

definition duplicate_key_error :: js_error where
  "duplicate_key_error = JsError (NumCode 11000) ''E11000 duplicate key error collection: hackathon.registrations''"

definition network_error :: js_error where
  "network_error = JsError NoCode ''connection closed''"

definition failing_reads :: read_env where
  "failing_reads = \<lparr>firstRead = Some duplicate_key_error,
                     readCleanup = \<lparr>aggregateResult = None, deleteManyResult = (\<lambda>i. None)\<rparr>,
                     retryRead = Some network_error, toLocaleString = (\<lambda>d. d)\<rparr>"

text \<open>
  A document store whose cached counter has drifted: two registrations reference
  \<open>ps001\<close>, but its \<open>selectedCount\<close> is missing.
\<close>

definition drifted_store :: mongo_store where
  "drifted_store = \<lparr>connected = True, ps_coll = catalog, regs_coll = [reg_T1, reg_T2]\<rparr>"

definition txn_ok :: txn_env where
  "txn_ok = \<lparr>insertResult = None, clock = ''2025-01-01T00:00:02.000Z''\<rparr>"

definition reg_T1_again :: registration_input where
  "reg_T1_again = \<lparr>teamNumber = ''T1 '', teamName = ''Alpha'', teamLeader = ''Alice'',
                   problemStatementId = ''ps002''\<rparr>"

definition full_doc :: document where
  "full_doc = \<lparr>problemStatements = catalog, registrations = [reg_T1, reg_T2]\<rparr>"

definition full_file_store :: file_store where
  "full_file_store = \<lparr>useBlob = False, memoryData = Some full_doc, defaultData = empty_doc,
                       source = Some full_doc\<rparr>"

text \<open>A problem statement supplied with the limit 2.5.\<close>

definition half_input :: ps_input where
  "half_input = \<lparr>in_id = ''ps900'', in_title = ''C'', in_description = ''third'',
                 in_maxSelections = JNum (Fin (5 / 2)), in_category = None, in_difficulty = None,
                 in_technologies = None\<rparr>"

definition text_input :: ps_input where
  "text_input = \<lparr>in_id = ''ps901'', in_title = ''D'', in_description = ''fourth'',
                 in_maxSelections = JStr '' -3 teams'', in_category = None, in_difficulty = None,
                 in_technologies = None\<rparr>"

definition no_faults :: catalog_env where
  "no_faults = \<lparr>writeFault = None, insertFault = None, insertManyFault = None\<rparr>"

text \<open>A file system on which every write of the document fails, and a store without a readable source.\<close>

definition io_error :: js_error where
  "io_error = JsError (StrCode ''EIO'') ''EIO: i/o error, write''"

definition write_fails_env :: "nat \<Rightarrow> attempt_env" where
  "write_fails_env i = \<lparr>lockResult = None, writeResult = Some io_error,
                         now = ''2025-01-01T00:00:03.000Z''\<rparr>"

definition unreadable_store :: file_store where
  "unreadable_store = \<lparr>useBlob = False, memoryData = None, defaultData = one_doc, source = None\<rparr>"

section \<open>Properties of the retry loop\<close>

declare attempts.simps [simp del]

lemma after_events_simp [simp]: "after_events t (r, s, t') = (r, s, t @ t')"
  by (simp add: after_events_def)

lemma attempts_all_held:
  assumes "\<not> useBlob s" and "\<forall>i. attempt \<le> i \<and> i < maxRetries \<longrightarrow> lockHeld (env i)"
  shows "attempts attempt env registration s =
           (Inl lockExhausted, s, concat (replicate (maxRetries - attempt) [LockConflict, Slept retryDelay]))"
  using assms
proof (induction "maxRetries - attempt" arbitrary: attempt)
  case 0
  then show ?case by (simp add: attempts.simps [of attempt])
next
  case (Suc k)
  then have lt: "attempt < maxRetries" and k: "k = maxRetries - (attempt + 1)" by simp_all
  from Suc.prems lt have held: "lockHeld (env attempt)" by simp
  have ih: "attempts (Suc attempt) env registration s =
           (Inl lockExhausted, s, concat (replicate (maxRetries - Suc attempt) [LockConflict, Slept retryDelay]))"
    using Suc.hyps(1) [OF k Suc.prems(1)] Suc.prems(2) by simp
  have rep: "maxRetries - attempt = Suc (maxRetries - Suc attempt)" using lt by simp
  show ?case
    using held lt Suc.prems(1)
    by (subst attempts.simps) (auto simp: lockHeld_def ih rep Let_def split: option.splits)
qed

text \<open>
  C5.  In the file backend outside blob mode, when each of the ten attempts finds the
  lock marker present, \<open>createRegistrationAtomic\<close> sleeps 50 ms after each of the ten
  conflicts, touches nothing else, leaves the store as it was and ends by throwing the
  error "Failed to acquire lock for registration after maximum retries".  The loop is a
  total function: the call always ends.
\<close>

theorem lock_acquisition_bounded:
  assumes "\<not> useBlob s" and "\<forall>i<maxRetries. lockHeld (env i)"
  shows "json_createRegistrationAtomic env registration s =
           (Inl (JsError NoCode ''Failed to acquire lock for registration after maximum retries''), s,
            concat (replicate 10 [LockConflict, Slept 50]))"
  using attempts_all_held [of s 0 env registration] assms
  by (simp add: json_createRegistrationAtomic_def lockExhausted_def maxRetries_def retryDelay_def)

theorem lock_acquisition_bounded_witness:
  "\<not> useBlob \<lparr>useBlob = False, memoryData = None, defaultData = empty_doc, source = Some empty_doc\<rparr>
   \<and> lockHeld (held_env 0) \<and> lockHeld (held_env 9)
   \<and> json_createRegistrationAtomic held_env reg_T3
        \<lparr>useBlob = False, memoryData = None, defaultData = empty_doc, source = Some empty_doc\<rparr> =
       (Inl (JsError NoCode ''Failed to acquire lock for registration after maximum retries''),
        \<lparr>useBlob = False, memoryData = None, defaultData = empty_doc, source = Some empty_doc\<rparr>,
        concat (replicate 10 [LockConflict, Slept 50]))"
  using lock_acquisition_bounded
    [of "\<lparr>useBlob = False, memoryData = None, defaultData = empty_doc, source = Some empty_doc\<rparr>"
        held_env reg_T3]
  by (simp add: lockHeld_def held_env_def)

section \<open>The lock marker\<close>

lemma critical_section_cases:
  "critical_section e registration s = (r, s', t) \<Longrightarrow>
     useBlob s' = useBlob s \<and> (t = [SourceRead] \<or> t = [SourceRead, WriteFailed] \<or> t = [SourceRead, DocWritten])"
  by (auto simp: critical_section_def Let_def atomicWrite_def split: if_splits option.splits)

lemma critical_section_error:
  "critical_section e registration s = (Inl err, s', t) \<Longrightarrow> writeResult e = Some err"
  by (auto simp: critical_section_def Let_def atomicWrite_def split: if_splits option.splits)

lemma attempts_blob:
  assumes "useBlob s" and "attempts attempt env registration s = (r, s', t)" and "attempt < maxRetries"
  shows "\<not> list_ex lock_event t \<and> (case r of Inl err \<Rightarrow> writeResult (env (maxRetries - 1)) = Some err | Inr v \<Rightarrow> True)"
  using assms
proof (induction "maxRetries - attempt" arbitrary: attempt s r s' t)
  case 0
  then show ?case by simp
next
  case (Suc k)
  obtain r1 s1 t1 where c: "critical_section (env attempt) registration s = (r1, s1, t1)"
    by (cases "critical_section (env attempt) registration s") auto
  note cc = critical_section_cases [OF c]
  have t1: "\<not> list_ex lock_event t1" using cc by (auto simp: lock_event_def)
  show ?case
  proof (cases r1)
    case (Inr v)
    with Suc.prems c t1 show ?thesis
      by (subst (asm) attempts.simps) (auto simp: Let_def)
  next
    case (Inl err)
    note w = critical_section_error [OF c [unfolded Inl]]
    show ?thesis
    proof (cases "attempt = maxRetries - 1")
      case True
      with Suc.prems c t1 Inl w show ?thesis
        by (subst (asm) attempts.simps) (auto simp: Let_def)
    next
      case False
      with Suc.prems have lt: "Suc attempt < maxRetries" by simp
      obtain r2 s2 t2 where rec: "attempts (Suc attempt) env registration s1 = (r2, s2, t2)"
        by (cases "attempts (Suc attempt) env registration s1") auto
      have k: "k = maxRetries - Suc attempt" using Suc.hyps(2) by simp
      have b1: "useBlob s1" using cc Suc.prems(1) by simp
      note ih = Suc.hyps(1) [OF k b1 rec lt]
      from Suc.prems c Inl False rec t1 ih show ?thesis
        by (subst (asm) attempts.simps) (auto simp: Let_def lock_event_def)
    qed
  qed
qed

lemma attempts_blob_lock_irrelevant:
  assumes "useBlob s"
  shows "attempts attempt (\<lambda>i. (env i)\<lparr>lockResult := lr i\<rparr>) registration s = attempts attempt env registration s"
  using assms
proof (induction "maxRetries - attempt" arbitrary: attempt s)
  case 0
  then show ?case by (simp add: attempts.simps [of attempt])
next
  case (Suc k)
  have cs: "critical_section ((env attempt)\<lparr>lockResult := lr attempt\<rparr>) registration s
          = critical_section (env attempt) registration s"
    by (simp add: critical_section_def Let_def cong: if_cong option.case_cong)
  obtain r1 s1 t1 where c: "critical_section (env attempt) registration s = (r1, s1, t1)"
    by (cases "critical_section (env attempt) registration s") auto
  have b1: "useBlob s1" using critical_section_cases [OF c] Suc.prems by simp
  have k: "k = maxRetries - Suc attempt" using Suc.hyps(2) by simp
  note ih = Suc.hyps(1) [OF k b1]
  show ?case
    using Suc.prems c cs ih
    by (auto simp: attempts.simps [of attempt] Let_def split: sum.splits)
qed

lemma lock_released_neutral:
  "t1 = [SourceRead] \<or> t1 = [SourceRead, WriteFailed] \<or> t1 = [SourceRead, DocWritten] \<Longrightarrow>
   lock_released h (t1 @ u) = lock_released h u"
  by auto

lemma attempts_lock_released:
  "lock_released False (snd (snd (attempts attempt env registration s)))"
proof (induction "maxRetries - attempt" arbitrary: attempt s)
  case 0
  then show ?case by (simp add: attempts.simps [of attempt])
next
  case (Suc k)
  obtain r1 s1 t1 where c: "critical_section (env attempt) registration s = (r1, s1, t1)"
    by (cases "critical_section (env attempt) registration s") auto
  note n = lock_released_neutral [OF conjunct2 [OF critical_section_cases [OF c]]]
  have k: "k = maxRetries - Suc attempt" using Suc.hyps(2) by simp
  have ih: "lock_released False (snd (snd (attempts (Suc attempt) env registration s'')))" for s''
    using Suc.hyps(1) [OF k] .
  have ae: "snd (snd (after_events u x)) = u @ snd (snd x)" for u x
    by (cases x) (simp add: after_events_def)
  have n0: "lock_released h t1 = (\<not> h)" for h
    using n [of h "[]"] by simp
  show ?case
    using c n n0 ih
    by (auto simp: attempts.simps [of attempt] Let_def ae split: sum.splits option.splits)
qed

text \<open>
  C7.  Whatever the file system answers and whatever the store holds, the trace of one
  call of \<open>createRegistrationAtomic\<close> of the file backend respects the lock: after the
  marker has been created it is unlinked before the call waits for a retry and before it
  ends, whether it ends by returning a result, by returning \<open>null\<close> or by throwing.
  (An \<open>unlink\<close> is taken to remove the marker; the source ignores its errors.)
\<close>

theorem lock_always_released:
  "lock_released False (snd (snd (json_createRegistrationAtomic env registration s)))"
  unfolding json_createRegistrationAtomic_def by (rule attempts_lock_released)

text \<open>
  C10.  In blob mode a call of \<open>createRegistrationAtomic\<close> makes no call on the lock
  marker at all, the only error it can throw is the write error caught on the last
  attempt (so the lock error is out of reach), and its outcome is the same whatever the
  marker's state: the checks and the write run even while another caller holds the lock.
\<close>

theorem blob_mode_takes_no_lock:
  assumes "useBlob s"
  shows "(case json_createRegistrationAtomic env registration s of
            (r, s', t) \<Rightarrow>
              \<not> list_ex lock_event t \<and>
              (case r of Inl err \<Rightarrow> writeResult (env (maxRetries - 1)) = Some err | Inr v \<Rightarrow> True))
         \<and> json_createRegistrationAtomic (\<lambda>i. (env i)\<lparr>lockResult := lr i\<rparr>) registration s
             = json_createRegistrationAtomic env registration s"
proof -
  obtain r s' t where c: "attempts 0 env registration s = (r, s', t)"
    by (cases "attempts 0 env registration s") auto
  have "0 < maxRetries" by (simp add: maxRetries_def)
  from attempts_blob [OF assms c this] c attempts_blob_lock_irrelevant [OF assms, where attempt = 0 and env = env and lr = lr and registration = registration]
  show ?thesis by (simp add: json_createRegistrationAtomic_def)
qed

lemma blob_registration_example:
  "json_createRegistrationAtomic held_env reg_T3 blob_store0 =
     (Inr (Some \<lparr>res_id = ''T3'', changes = 1\<rparr>),
      blob_store0\<lparr>memoryData := Some (one_doc\<lparr>registrations := [reg_T1,
          \<lparr>teamNumber = ''T3'', teamName = ''Gamma'', teamLeader = ''Carol'', problemStatementId = ''ps001'',
           registrationDateTime = ''2025-01-01T00:00:00.000Z''\<rparr>]\<rparr>),
        source := Some (one_doc\<lparr>registrations := [reg_T1,
          \<lparr>teamNumber = ''T3'', teamName = ''Gamma'', teamLeader = ''Carol'', problemStatementId = ''ps001'',
           registrationDateTime = ''2025-01-01T00:00:00.000Z''\<rparr>]\<rparr>)\<rparr>,
      [SourceRead, DocWritten])"
  by (simp add: json_createRegistrationAtomic_def attempts.simps [of 0] blob_store0_def held_env_def
      reg_T3_def maxRetries_def critical_section_def readFromSource_def one_doc_def catalog_def
      reg_T1_def trim_def isWhiteSpace_def count_ge_def atomicWrite_def json_doc_def json_num_def Let_def)

theorem blob_mode_takes_no_lock_witness:
  "useBlob blob_store0
   \<and> json_createRegistrationAtomic (\<lambda>i. (held_env i)\<lparr>lockResult := None\<rparr>) reg_T3 blob_store0
       = json_createRegistrationAtomic held_env reg_T3 blob_store0
   \<and> fst (json_createRegistrationAtomic held_env reg_T3 blob_store0) = Inr (Some \<lparr>res_id = ''T3'', changes = 1\<rparr>)"
  using blob_mode_takes_no_lock [where s = blob_store0 and env = held_env and registration = reg_T3 and lr = "\<lambda>i. None"]
  by (simp add: blob_registration_example) (simp add: blob_store0_def)

section \<open>Reset\<close>

lemma json_defaults: "map (\<lambda>p. p\<lparr>maxSelections := json_num (maxSelections p)\<rparr>) defaults = defaults"
  by (simp add: defaults_def json_num_def)

lemma json_resetAll_reseeds:
  "json_resetAll None None s =
     (Inr True, s\<lparr>memoryData := Some \<lparr>problemStatements = defaults, registrations = []\<rparr>,
                  source := Some \<lparr>problemStatements = defaults, registrations = []\<rparr>\<rparr>)"
  by (simp add: json_resetAll_def json_seedProblemStatements_def atomicWrite_def read_data_def
      Let_def json_doc_def json_defaults)

text \<open>
  C4.  \<open>resetAll\<close> of the document store empties both collections and then calls
  \<open>init\<close>, which returns at once because \<open>this.db\<close> is set: whenever the call returns,
  both collections are empty and the default catalog has not been inserted.  (The file
  backend does re-seed, lemma \<open>json_resetAll_reseeds\<close>.)  The call can only throw when
  the store was not connected and connecting fails; the store is then unchanged.
\<close>

theorem mongo_resetAll_leaves_catalog_empty:
  "case mongo_resetAll ie s of
     (Inl err, s') \<Rightarrow> \<not> connected s \<and> connectResult ie = Some err \<and> s' = s
   | (Inr ok, s') \<Rightarrow> ok \<and> connected s' \<and> regs_coll s' = [] \<and> ps_coll s' = []"
  by (auto simp: mongo_resetAll_def ensure_init_def mongo_init_def Let_def split: option.splits)

theorem mongo_resetAll_leaves_catalog_empty_witness:
  "mongo_resetAll no_init mongo_store0 = (Inr True, \<lparr>connected = True, ps_coll = [], regs_coll = []\<rparr>)"
  using mongo_resetAll_leaves_catalog_empty [where ie = no_init and s = mongo_store0]
  by (auto simp: mongo_store0_def mongo_resetAll_def ensure_init_def mongo_init_def split: prod.splits sum.splits)

section \<open>Duplicate key errors while reading the registrations\<close>

lemma getAll_error_not_duplicate:
  "connected s \<Longrightarrow> mongo_getAllRegistrations ie re s = (Inl e, s') \<Longrightarrow> \<not> isDuplicateKey e"
  by (auto simp: mongo_getAllRegistrations_def ensure_init_def
      split: option.splits if_splits prod.splits sum.splits)

lemma handler_never_reports_inconsistency:
  assumes "connected s"
  shows "fst (get_registrations_handler teams ie re1 re2 s) \<noteq>
     Json500 ''Failed to fetch registrations due to database inconsistency. Please contact administrator.''"
proof (cases "mongo_getAllRegistrations ie re1 s")
  case (Pair r s1)
  show ?thesis
  proof (cases r)
    case (Inl e)
    with Pair getAll_error_not_duplicate [OF assms, where ie = ie and re = re1 and e = e and s' = s1]
    show ?thesis by (simp add: get_registrations_handler_def)
  next
    case (Inr v)
    with Pair show ?thesis by (simp add: get_registrations_handler_def)
  qed
qed

text \<open>
  C8.  When the first read of \<open>getAllRegistrations\<close> fails with a duplicate key error
  and the read after the clean-up fails too, the document store returns the empty list,
  and the handler of \<open>GET /api/registrations\<close> answers 200 with an empty list.  The
  answer "Failed to fetch registrations due to database inconsistency. Please contact
  administrator." is never given for a connected store (lemma
  \<open>handler_never_reports_inconsistency\<close>).
\<close>

theorem duplicate_key_retry_failure_swallowed:
  assumes "connected s" "firstRead re = Some e1" "isDuplicateKey e1" "retryRead re = Some e2"
  shows "fst (mongo_getAllRegistrations ie re s) = Inr []
       \<and> fst (get_registrations_handler teams ie re re2 s) = Json200 []"
  using assms
  by (auto simp: mongo_getAllRegistrations_def get_registrations_handler_def ensure_init_def
      split: prod.splits sum.splits option.splits)

theorem duplicate_key_retry_failure_swallowed_witness:
  "connected mongo_store0 \<and> isDuplicateKey duplicate_key_error
   \<and> fst (mongo_getAllRegistrations no_init failing_reads mongo_store0) = Inr []
   \<and> fst (get_registrations_handler (\<lambda>t. None) no_init failing_reads failing_reads mongo_store0) = Json200 []"
  using duplicate_key_retry_failure_swallowed
    [where s = mongo_store0 and re = failing_reads and ?e1.0 = duplicate_key_error
       and ?e2.0 = network_error and ie = no_init and teams = "\<lambda>t. None" and ?re2.0 = failing_reads]
  by (simp add: mongo_store0_def failing_reads_def isDuplicateKey_def duplicate_key_error_def)

section \<open>Trimming\<close>

lemma dropWhile_take_head:
  assumes "t = [] \<or> \<not> P (hd t)"
  shows "dropWhile P (take m t) = take m t"
  using assms by (cases t; cases m) auto

lemma trim_no_leading: "dropWhile isWhiteSpace (trim s) = trim s"
proof -
  let ?t = "dropWhile isWhiteSpace s"
  have "dropWhile isWhiteSpace (rev ?t) = drop (length (takeWhile isWhiteSpace (rev ?t))) (rev ?t)"
    by (rule dropWhile_eq_drop)
  then have u: "trim s = take (length ?t - length (takeWhile isWhiteSpace (rev ?t))) ?t"
    by (simp add: trim_def rev_drop)
  have "?t = [] \<or> \<not> isWhiteSpace (hd ?t)"
    by (metis hd_dropWhile)
  from dropWhile_take_head [where P = isWhiteSpace and t = "?t", OF this] u show ?thesis by simp
qed

lemma trim_idem: "trim (trim s) = trim s"
proof -
  have "rev (trim s) = dropWhile isWhiteSpace (rev (dropWhile isWhiteSpace s))"
    by (simp add: trim_def)
  then have "dropWhile isWhiteSpace (rev (trim s)) = rev (trim s)"
    by simp
  then show ?thesis
    by (simp add: trim_def [of "trim s"] trim_no_leading)
qed

section \<open>Invariants of the file backend\<close>

lemma critical_section_eq:
  "critical_section e registration s =
     (if accepts registration (readFromSource s) then
        (let data' = (readFromSource s)\<lparr>registrations :=
                        registrations (readFromSource s) @ [new_record (now e) registration]\<rparr>;
             s1 = (case source s of Some _ \<Rightarrow> s | None \<Rightarrow> s\<lparr>defaultData := data'\<rparr>)
         in case writeResult e of
              Some err \<Rightarrow> (Inl err, s1\<lparr>memoryData := Some (json_doc data')\<rparr>, [SourceRead, WriteFailed])
            | None \<Rightarrow> (Inr (Some \<lparr>res_id = trim (teamNumber registration), changes = 1\<rparr>),
                       s1\<lparr>memoryData := Some (json_doc data'), source := Some (json_doc data')\<rparr>,
                       [SourceRead, DocWritten]))
      else (Inr None, s, [SourceRead]))"
  by (auto simp: critical_section_def accepts_def new_record_def regCount_def atomicWrite_def Let_def
      split: option.splits)

lemma critical_section_unchanged:
  assumes "critical_section e registration s = (r, s', t)" and "\<not> succeeded r"
    and "WriteFailed \<notin> set t"
  shows "s' = s"
  using assms
  by (auto simp: critical_section_eq Let_def succeeded_def split: if_splits option.splits)

lemma attempts_failure_unchanged:
  assumes "attempts attempt env registration s = (r, s', t)" and "\<not> succeeded r"
    and "WriteFailed \<notin> set t"
  shows "s' = s"
  using assms
proof (induction "maxRetries - attempt" arbitrary: attempt s r s' t)
  case 0
  then show ?case by (simp add: attempts.simps [of attempt])
next
  case (Suc k)
  have k: "k = maxRetries - Suc attempt" using Suc.hyps(2) by simp
  obtain r1 s1 t1 where c: "critical_section (env attempt) registration s = (r1, s1, t1)"
    by (cases "critical_section (env attempt) registration s") auto
  obtain r2 s2 t2 where rec: "attempts (Suc attempt) env registration s = (r2, s2, t2)"
    by (cases "attempts (Suc attempt) env registration s") auto
  obtain r3 s3 t3 where rec1: "attempts (Suc attempt) env registration s1 = (r3, s3, t3)"
    by (cases "attempts (Suc attempt) env registration s1") auto
  note ih2 = Suc.hyps(1) [OF k rec]
  note ih3 = Suc.hyps(1) [OF k rec1]
  note cs = critical_section_unchanged [OF c]
  show ?case
    using Suc.prems c rec rec1 ih2 ih3 cs
    by (auto simp: attempts.simps [of attempt] Let_def succeeded_def split: sum.splits option.splits if_splits)
qed

lemma readFromSource_held: "list_all Q (held_documents s) \<Longrightarrow> Q (readFromSource s)"
  by (auto simp: held_documents_def readFromSource_def split: option.splits)

lemma read_data_held: "list_all Q (held_documents s) \<Longrightarrow> Q (read_data s)"
  by (auto simp: held_documents_def read_data_def readFromSource_def split: option.splits)

lemma critical_section_preserves:
  assumes inv: "list_all Q (held_documents s)"
    and push: "\<And>d. Q d \<Longrightarrow> accepts registration d \<Longrightarrow>
                 Q (d\<lparr>registrations := registrations d @ [new_record (now e) registration]\<rparr>)"
    and js: "\<And>d. Q d \<Longrightarrow> Q (json_doc d)"
    and c: "critical_section e registration s = (r, s', t)"
  shows "list_all Q (held_documents s')"
proof (cases "accepts registration (readFromSource s)")
  case False
  with c inv show ?thesis by (simp add: critical_section_eq)
next
  case True
  let ?d = "(readFromSource s)\<lparr>registrations := registrations (readFromSource s) @ [new_record (now e) registration]\<rparr>"
  have q: "Q ?d" using push [OF readFromSource_held [OF inv] True] .
  have qj: "Q (json_doc ?d)" using js [OF q] .
  from c True inv q qj show ?thesis
    by (auto simp: critical_section_eq Let_def held_documents_def split: option.splits)
qed

lemma attempts_preserves:
  assumes inv: "list_all Q (held_documents s)"
    and push: "\<And>d i. Q d \<Longrightarrow> accepts registration d \<Longrightarrow>
                 Q (d\<lparr>registrations := registrations d @ [new_record (now (env i)) registration]\<rparr>)"
    and js: "\<And>d. Q d \<Longrightarrow> Q (json_doc d)"
  shows "list_all Q (held_documents (fst (snd (attempts attempt env registration s))))"
  using inv
proof (induction "maxRetries - attempt" arbitrary: attempt s)
  case 0
  then show ?case by (simp add: attempts.simps [of attempt])
next
  case (Suc k)
  have k: "k = maxRetries - Suc attempt" using Suc.hyps(2) by simp
  obtain r1 s1 t1 where c: "critical_section (env attempt) registration s = (r1, s1, t1)"
    by (cases "critical_section (env attempt) registration s") auto
  have inv1: "list_all Q (held_documents s1)"
    using critical_section_preserves [OF Suc.prems push js c] .
  note ih = Suc.hyps(1) [OF k Suc.prems]
  note ih1 = Suc.hyps(1) [OF k inv1]
  have ae: "fst (snd (after_events u x)) = fst (snd x)" for u x
    by (cases x) (simp add: after_events_def)
  show ?case
    using c inv1 ih ih1 Suc.prems
    by (auto simp: attempts.simps [of attempt] Let_def ae split: sum.splits option.splits)
qed

lemma deleteRegistration_preserves:
  assumes inv: "list_all Q (held_documents s)"
    and filt: "\<And>d P. Q d \<Longrightarrow> Q (d\<lparr>registrations := filter P (registrations d)\<rparr>)"
    and js: "\<And>d. Q d \<Longrightarrow> Q (json_doc d)"
  shows "list_all Q (held_documents (snd (json_deleteRegistration fault t s)))"
proof -
  let ?d = "(read_data s)\<lparr>registrations := filter (\<lambda>r. trim (teamNumber r) \<noteq> trim t) (registrations (read_data s))\<rparr>"
  have "Q (json_doc ?d)" using js [OF filt [OF read_data_held [OF inv]]] .
  with inv show ?thesis
    by (auto simp: json_deleteRegistration_def atomicWrite_def Let_def held_documents_def split: option.splits)
qed

lemma json_run_preserves:
  assumes inv: "list_all Q (held_documents s)"
    and push: "\<And>d stamp registration. Q d \<Longrightarrow> accepts registration d \<Longrightarrow>
                 Q (d\<lparr>registrations := registrations d @ [new_record stamp registration]\<rparr>)"
    and filt: "\<And>d P. Q d \<Longrightarrow> Q (d\<lparr>registrations := filter P (registrations d)\<rparr>)"
    and js: "\<And>d. Q d \<Longrightarrow> Q (json_doc d)"
  shows "list_all Q (held_documents (json_run ops s))"
  using inv
proof (induction ops arbitrary: s)
  case Nil
  then show ?case by simp
next
  case (Cons op ops)
  have "list_all Q (held_documents (json_step op s))"
  proof (cases op)
    case (Register env registration)
    then show ?thesis
      using attempts_preserves [where Q = Q and s = s and attempt = 0 and env = env
          and registration = registration, OF Cons.prems] push js
      by (simp add: json_createRegistrationAtomic_def)
  next
    case (Delete fault t)
    then show ?thesis
      using deleteRegistration_preserves [OF Cons.prems filt js] by simp
  qed
  then show ?case using Cons.IH by simp
qed

lemma regCount_append:
  "regCount pid (regs @ [r]) = regCount pid regs + (if problemStatementId r = pid then 1 else 0)"
  by (simp add: regCount_def)

lemma regCount_filter_le: "regCount pid (filter P regs) \<le> regCount pid regs"
  unfolding regCount_def by (induction regs) auto

lemma json_doc_registrations [simp]: "registrations (json_doc d) = registrations d"
  by (simp add: json_doc_def)

lemma within_capacity_json: "within_capacity pid N d \<Longrightarrow> within_capacity pid N (json_doc d)"
  by (auto simp: within_capacity_def json_doc_def json_num_def list_all_iff)

lemma within_capacity_filter:
  "within_capacity pid N d \<Longrightarrow> within_capacity pid N (d\<lparr>registrations := filter P (registrations d)\<rparr>)"
  using regCount_filter_le [of pid P "registrations d"] by (auto simp: within_capacity_def)

lemma accepts_target:
  assumes "accepts registration d" and "problemStatementId registration = pid"
    and "list_all (\<lambda>p. ps_id p = pid \<longrightarrow> maxSelections p = Some (Fin (of_nat N))) (problemStatements d)"
  shows "regCount pid (registrations d) < N"
proof -
  from assms(1) obtain ps where f: "find (\<lambda>p. ps_id p = problemStatementId registration) (problemStatements d) = Some ps"
    and c: "\<not> count_ge (regCount (ps_id ps) (registrations d)) (maxSelections ps)"
    by (auto simp: accepts_def split: option.splits)
  from f have "ps_id ps = pid" and "ps \<in> set (problemStatements d)"
    using assms(2) by (auto simp: find_Some_iff)
  with assms(3) have "maxSelections ps = Some (Fin (of_nat N))" by (auto simp: list_all_iff)
  with c \<open>ps_id ps = pid\<close> show ?thesis by (simp add: count_ge_def)
qed

lemma within_capacity_push:
  assumes "within_capacity pid N d" and "accepts registration d"
  shows "within_capacity pid N (d\<lparr>registrations := registrations d @ [new_record stamp registration]\<rparr>)"
proof (cases "problemStatementId registration = pid")
  case True
  from accepts_target [OF assms(2) True] assms(1) have "regCount pid (registrations d) < N"
    by (simp add: within_capacity_def)
  with assms(1) True show ?thesis
    by (simp add: within_capacity_def regCount_append new_record_def)
next
  case False
  with assms(1) show ?thesis
    by (simp add: within_capacity_def regCount_append new_record_def)
qed

lemma full_rejects:
  assumes "within_capacity pid N d" and "regCount pid (registrations d) = N"
    and "problemStatementId registration = pid"
  shows "\<not> accepts registration d"
  using accepts_target [OF _ assms(3), of d N] assms(1,2) by (auto simp: within_capacity_def)

lemma duplicate_rejects:
  "list_ex (\<lambda>r. trim (teamNumber r) = trim (teamNumber registration)) (registrations d) \<Longrightarrow>
   \<not> accepts registration d"
  by (simp add: accepts_def)

lemma unique_teams_push:
  assumes "unique_teams (registrations d)" and "accepts registration d"
  shows "unique_teams (registrations (d\<lparr>registrations := registrations d @ [new_record stamp registration]\<rparr>))"
  using assms
  by (auto simp: unique_teams_def accepts_def new_record_def trim_idem list_ex_iff)

lemma unique_teams_filter:
  "unique_teams regs \<Longrightarrow> unique_teams (filter P regs)"
  by (simp add: unique_teams_def distinct_map_filter)

lemma attempts_rejected:
  assumes "\<not> accepts registration (readFromSource s)"
  shows "fst (snd (attempts attempt env registration s)) = s
       \<and> \<not> succeeded (fst (attempts attempt env registration s))"
proof (induction "maxRetries - attempt" arbitrary: attempt)
  case 0
  then show ?case by (simp add: attempts.simps [of attempt] succeeded_def)
next
  case (Suc k)
  have k: "k = maxRetries - Suc attempt" using Suc.hyps(2) by simp
  note ih = Suc.hyps(1) [OF k]
  have ae: "fst (snd (after_events u x)) = fst (snd x)" "fst (after_events u x) = fst x" for u x
    by (cases x; simp add: after_events_def)+
  show ?case
    using assms ih
    by (auto simp: attempts.simps [of attempt] critical_section_eq Let_def ae succeeded_def
        split: sum.splits option.splits)
qed

lemma rejected_returns_null:
  assumes "\<not> accepts registration (readFromSource s)" and "useBlob s \<or> lockResult (env 0) = None"
  shows "fst (json_createRegistrationAtomic env registration s) = Inr None"
  using assms
  by (auto simp: json_createRegistrationAtomic_def attempts.simps [of 0] critical_section_eq maxRetries_def)

section \<open>Invariants of the document store\<close>

lemma updateOne_map:
  assumes "\<And>p. g (f p) = g p"
  shows "map g (updateOne P f xs) = map g xs"
  by (induction xs) (auto simp: assms)

lemma no_id_no_reserve: "i \<notin> ps_id ` set xs \<Longrightarrow> \<not> list_ex (\<lambda>p. ps_id p = i \<and> R p) xs"
  by (induction xs) auto

lemma reserve_unique_updated:
  assumes "distinct (map ps_id xs)" and "find (\<lambda>p. ps_id p = i) xs = Some problem"
    and "\<And>p. ps_id (f p) = ps_id p"
  shows "list_ex (\<lambda>p. ps_id p = i \<and> R p) (updateOne (\<lambda>p. ps_id p = i) f xs) = R (f problem)"
  using assms(1,2)
proof (induction xs)
  case Nil
  then show ?case by simp
next
  case (Cons x xs)
  show ?case
  proof (cases "ps_id x = i")
    case True
    from Cons.prems True have "problem = x" by simp
    moreover from Cons.prems True have "i \<notin> ps_id ` set xs" by auto
    then have "\<not> list_ex (\<lambda>p. ps_id p = i \<and> R p) xs" by (rule no_id_no_reserve)
    ultimately have "problem = x" and "\<not> list_ex (\<lambda>p. ps_id p = i \<and> R p) xs" by simp_all
    with True show ?thesis by (simp add: assms(3))
  next
    case False
    with Cons show ?thesis by simp
  qed
qed

lemma reserve_unique:
  assumes "distinct (map ps_id xs)" and "find (\<lambda>p. ps_id p = i) xs = Some problem"
  shows "list_ex (\<lambda>p. ps_id p = i \<and> R p) xs = R problem"
  using assms
proof (induction xs)
  case Nil
  then show ?case by simp
next
  case (Cons x xs)
  show ?case
  proof (cases "ps_id x = i")
    case True
    from Cons.prems True have "problem = x" by simp
    moreover from Cons.prems True have "i \<notin> ps_id ` set xs" by auto
    then have "\<not> list_ex (\<lambda>p. ps_id p = i \<and> R p) xs" by (rule no_id_no_reserve)
    ultimately have "problem = x" and "\<not> list_ex (\<lambda>p. ps_id p = i \<and> R p) xs" by simp_all
    with True show ?thesis by simp
  next
    case False
    with Cons show ?thesis by simp
  qed
qed

lemma find_ps_id: "find (\<lambda>p. ps_id p = i) xs = Some problem \<Longrightarrow> ps_id problem = i \<and> problem \<in> set xs"
  by (auto simp: find_Some_iff)

lemma updateOne_selectedCount [simp]:
  "map ps_id (updateOne P (\<lambda>p. p\<lparr>selectedCount := c\<rparr>) xs) = map ps_id xs"
  "map maxSelections (updateOne P (\<lambda>p. p\<lparr>selectedCount := c\<rparr>) xs) = map maxSelections xs"
  "map ps_id (updateOne P (inc_selectedCount d) xs) = map ps_id xs"
  "map maxSelections (updateOne P (inc_selectedCount d) xs) = map maxSelections xs"
  by (simp_all add: updateOne_map inc_selectedCount_def)

text \<open>What the transaction callback leaves behind, case by case.\<close>

lemma transaction_body_duplicate:
  "list_ex (\<lambda>r. teamNumber r = target) (regs_coll s) \<Longrightarrow>
   transaction_body e registration target s = (Inr None, s)"
  by (simp add: transaction_body_def)

lemma transaction_body_not_found:
  "\<not> list_ex (\<lambda>r. teamNumber r = target) (regs_coll s) \<Longrightarrow>
   find (\<lambda>p. ps_id p = problemStatementId registration) (ps_coll s) = None \<Longrightarrow>
   transaction_body e registration target s = (Inr None, s)"
  by (simp add: transaction_body_def)

lemma transaction_body_found:
  assumes nd: "\<not> list_ex (\<lambda>r. teamNumber r = target) (regs_coll s)"
    and f: "find (\<lambda>p. ps_id p = problemStatementId registration) (ps_coll s) = Some problem"
  shows "transaction_body e registration target s =
     (let s1 = (if (case selectedCount problem of Some c \<Rightarrow> c | None \<Rightarrow> 0)
                     \<noteq> int (regCount (problemStatementId registration) (regs_coll s))
                then reconcile (problemStatementId registration) s else s);
          reserve = (\<lambda>p. ps_id p = problemStatementId registration \<and>
                       selected_lt (case selectedCount p of Some c \<Rightarrow> c | None \<Rightarrow> 0)
                         (maxSel (stored_value (maxSelections problem))))
      in if \<not> list_ex reserve (ps_coll s1) then (Inr None, s1)
         else case insertResult e of
                None \<Rightarrow> (Inr (Some \<lparr>res_id = target, changes = 1\<rparr>),
                          s1\<lparr>ps_coll := updateOne reserve (inc_selectedCount 1) (ps_coll s1),
                             regs_coll := regs_coll s @
                               [\<lparr>teamNumber = target, teamName = teamName registration,
                                 teamLeader = teamLeader registration,
                                 problemStatementId = problemStatementId registration,
                                 registrationDateTime = clock e\<rparr>]\<rparr>)
              | Some err \<Rightarrow>
                  (Inl err,
                   s1\<lparr>ps_coll := updateOne (\<lambda>p. ps_id p = problemStatementId registration)
                                    (inc_selectedCount (- 1))
                                    (updateOne reserve (inc_selectedCount 1) (ps_coll s1))\<rparr>))"
proof -
  have i: "ps_id problem = problemStatementId registration" using find_ps_id [OF f] by simp
  show ?thesis
    unfolding transaction_body_def Let_def reconcile_def regCount_def
    using nd f by (simp add: i split: option.splits)
qed

lemma reconcile_fields [simp]:
  "connected (reconcile pid s) = connected s"
  "regs_coll (reconcile pid s) = regs_coll s"
  "map ps_id (ps_coll (reconcile pid s)) = map ps_id (ps_coll s)"
  "map maxSelections (ps_coll (reconcile pid s)) = map maxSelections (ps_coll s)"
  by (simp_all add: reconcile_def)

lemma transaction_body_shape:
  assumes tb: "transaction_body e registration target s = (r, s')"
  shows "connected s' = connected s
       \<and> map ps_id (ps_coll s') = map ps_id (ps_coll s)
       \<and> map maxSelections (ps_coll s') = map maxSelections (ps_coll s)
       \<and> ((regs_coll s' = regs_coll s \<and> \<not> succeeded r)
          \<or> (succeeded r \<and> \<not> list_ex (\<lambda>r. teamNumber r = target) (regs_coll s)
              \<and> regs_coll s' = regs_coll s @
                   [\<lparr>teamNumber = target, teamName = teamName registration,
                     teamLeader = teamLeader registration,
                     problemStatementId = problemStatementId registration,
                     registrationDateTime = clock e\<rparr>]))"
proof (cases "list_ex (\<lambda>r. teamNumber r = target) (regs_coll s)")
  case True
  with tb show ?thesis by (auto simp: transaction_body_duplicate succeeded_def)
next
  case nd: False
  show ?thesis
  proof (cases "find (\<lambda>p. ps_id p = problemStatementId registration) (ps_coll s)")
    case None
    with tb nd show ?thesis by (auto simp: transaction_body_not_found succeeded_def)
  next
    case (Some problem)
    let ?s1 = "if (case selectedCount problem of Some c \<Rightarrow> c | None \<Rightarrow> 0)
                     \<noteq> int (regCount (problemStatementId registration) (regs_coll s))
                then reconcile (problemStatementId registration) s else s"
    have s1: "connected ?s1 = connected s" "regs_coll ?s1 = regs_coll s"
      "map ps_id (ps_coll ?s1) = map ps_id (ps_coll s)"
      "map maxSelections (ps_coll ?s1) = map maxSelections (ps_coll s)"
      by simp_all
    from tb show ?thesis
      unfolding transaction_body_found [OF nd Some] Let_def
      by (cases "insertResult e") (auto simp: s1 succeeded_def nd split: if_splits)
  qed
qed

lemma transaction_body_unsuccessful:
  assumes tb: "transaction_body e registration target s = (Inr v, s')" and ns: "\<not> succeeded (Inr v)"
  shows "s' = s \<or> s' = reconcile (problemStatementId registration) s"
proof (cases "list_ex (\<lambda>r. teamNumber r = target) (regs_coll s)")
  case True
  with tb show ?thesis by (simp add: transaction_body_duplicate)
next
  case nd: False
  show ?thesis
  proof (cases "find (\<lambda>p. ps_id p = problemStatementId registration) (ps_coll s)")
    case None
    with tb nd show ?thesis by (simp add: transaction_body_not_found)
  next
    case (Some problem)
    from tb ns show ?thesis
      unfolding transaction_body_found [OF nd Some] Let_def
      by (cases "insertResult e") (auto simp: succeeded_def split: if_splits)
  qed
qed

lemma list_ex_reserve:
  assumes d: "distinct (map ps_id (ps_coll s))"
    and f: "find (\<lambda>p. ps_id p = pid) (ps_coll s) = Some problem"
  shows "list_ex (\<lambda>p. ps_id p = pid \<and>
                       selected_lt (case selectedCount p of Some c \<Rightarrow> c | None \<Rightarrow> 0) m)
           (ps_coll (if (case selectedCount problem of Some c \<Rightarrow> c | None \<Rightarrow> 0)
                          \<noteq> int (regCount pid (regs_coll s))
                     then reconcile pid s else s))
         = selected_lt (int (regCount pid (regs_coll s))) m"
proof (cases "(case selectedCount problem of Some c \<Rightarrow> c | None \<Rightarrow> 0) \<noteq> int (regCount pid (regs_coll s))")
  case True
  have "list_ex (\<lambda>p. ps_id p = pid \<and>
                       selected_lt (case selectedCount p of Some c \<Rightarrow> c | None \<Rightarrow> 0) m)
          (updateOne (\<lambda>p. ps_id p = pid)
             (\<lambda>p. p\<lparr>selectedCount := Some (int (regCount pid (regs_coll s)))\<rparr>) (ps_coll s))
        = selected_lt (case selectedCount (problem\<lparr>selectedCount := Some (int (regCount pid (regs_coll s)))\<rparr>) of
                         Some c \<Rightarrow> c | None \<Rightarrow> 0) m"
    by (rule reserve_unique_updated [OF d f]) simp
  with True show ?thesis by (simp add: reconcile_def)
next
  case False
  have "list_ex (\<lambda>p. ps_id p = pid \<and>
                       selected_lt (case selectedCount p of Some c \<Rightarrow> c | None \<Rightarrow> 0) m) (ps_coll s)
        = selected_lt (case selectedCount problem of Some c \<Rightarrow> c | None \<Rightarrow> 0) m"
    by (rule reserve_unique [OF d f])
  with False show ?thesis by simp
qed

lemma transaction_body_capacity:
  assumes d: "distinct (map ps_id (ps_coll s))"
    and tb: "transaction_body e registration target s = (r, s')" and ok: "succeeded r"
  shows "\<exists>problem. find (\<lambda>p. ps_id p = problemStatementId registration) (ps_coll s) = Some problem
           \<and> selected_lt (int (regCount (problemStatementId registration) (regs_coll s)))
                (maxSel (stored_value (maxSelections problem)))"
proof (cases "list_ex (\<lambda>r. teamNumber r = target) (regs_coll s)")
  case True
  with tb ok show ?thesis by (auto simp: transaction_body_duplicate succeeded_def)
next
  case nd: False
  show ?thesis
  proof (cases "find (\<lambda>p. ps_id p = problemStatementId registration) (ps_coll s)")
    case None
    with tb nd ok show ?thesis by (auto simp: transaction_body_not_found succeeded_def)
  next
    case (Some problem)
    note le = list_ex_reserve [OF d Some, where m = "maxSel (stored_value (maxSelections problem))"]
    from tb ok have "selected_lt (int (regCount (problemStatementId registration) (regs_coll s)))
                (maxSel (stored_value (maxSelections problem)))"
      unfolding transaction_body_found [OF nd Some] Let_def le
      by (auto simp: succeeded_def split: if_splits)
    with Some show ?thesis by simp
  qed
qed

lemma transaction_body_full:
  assumes d: "distinct (map ps_id (ps_coll s))"
    and f: "find (\<lambda>p. ps_id p = problemStatementId registration) (ps_coll s) = Some problem"
    and full: "\<not> selected_lt (int (regCount (problemStatementId registration) (regs_coll s)))
                (maxSel (stored_value (maxSelections problem)))"
  shows "fst (transaction_body e registration target s) = Inr None"
proof (cases "list_ex (\<lambda>r. teamNumber r = target) (regs_coll s)")
  case True
  then show ?thesis by (simp add: transaction_body_duplicate)
next
  case nd: False
  note le = list_ex_reserve [OF d f, where m = "maxSel (stored_value (maxSelections problem))"]
  show ?thesis
    unfolding transaction_body_found [OF nd f] Let_def le
    using full by simp
qed

lemma maxSel_stored_nat: "1 \<le> N \<Longrightarrow> maxSel (stored_value (Some (Fin (of_nat N)))) = Fin (of_nat N)"
  by (simp add: maxSel_def stored_value_def parsedMax_def max_def)

lemma deleteOne_subset: "set (deleteOne P xs) \<subseteq> set xs"
  by (induction xs) auto

lemma deleteOne_distinct: "distinct (map f xs) \<Longrightarrow> distinct (map f (deleteOne P xs))"
proof (induction xs)
  case Nil
  then show ?case by simp
next
  case (Cons a xs)
  have "f ` set (deleteOne P xs) \<subseteq> f ` set xs"
    by (rule image_mono) (rule deleteOne_subset)
  with Cons show ?case by auto
qed

lemma deleteOne_list_all: "list_all Q xs \<Longrightarrow> list_all Q (deleteOne P xs)"
  using deleteOne_subset [of P xs] by (auto simp: list_all_iff)

lemma deleteOne_regCount:
  "find P regs = Some r \<Longrightarrow>
   regCount pid (deleteOne P regs) + (if problemStatementId r = pid then 1 else 0) = regCount pid regs"
  by (induction regs) (auto simp: regCount_def)

lemma deleteOne_none: "find P xs = None \<Longrightarrow> deleteOne P xs = xs"
  by (induction xs) (auto split: if_splits)

lemma filter_is_deleteOne:
  "distinct (map f xs) \<Longrightarrow> filter (\<lambda>r. f r \<noteq> t) xs = deleteOne (\<lambda>r. f r = t) xs"
proof (induction xs)
  case Nil
  then show ?case by simp
next
  case (Cons x xs)
  show ?case
  proof (cases "f x = t")
    case True
    from Cons.prems True have "t \<notin> f ` set xs" by auto
    then have "\<forall>y\<in>set xs. f y \<noteq> t" by blast
    then have "filter (\<lambda>r. f r \<noteq> t) xs = xs" by (simp add: filter_True)
    with True show ?thesis by simp
  next
    case False
    with Cons show ?thesis by simp
  qed
qed

lemma mongo_create_connected:
  assumes "connected s"
  shows "mongo_createRegistrationAtomic ie e registration s =
     (case transaction_body e registration (trim (teamNumber registration)) s of
        (Inl error, s1) \<Rightarrow> if err_code error = NumCode 11000 then (Inr None, s) else (Inl error, s)
      | (Inr result, s1) \<Rightarrow> (Inr result, s1))"
  using assms
  by (simp add: mongo_createRegistrationAtomic_def ensure_init_def withTransaction_def
      split: prod.splits sum.splits)

lemma limits_transfer:
  assumes "map ps_id ys = map ps_id xs" and "map maxSelections ys = map maxSelections xs"
    and "list_all (\<lambda>p. ps_id p = pid \<longrightarrow> maxSelections p = m) xs"
  shows "list_all (\<lambda>p. ps_id p = pid \<longrightarrow> maxSelections p = m) ys"
proof -
  from assms(1) have "length ys = length xs" by (rule map_eq_imp_length_eq)
  then show ?thesis using assms
    by (induction ys xs rule: list_induct2) auto
qed

lemma mongo_create_shape:
  assumes c: "connected s"
  shows "connected (snd (mongo_createRegistrationAtomic ie e registration s))
       \<and> map ps_id (ps_coll (snd (mongo_createRegistrationAtomic ie e registration s))) = map ps_id (ps_coll s)
       \<and> map maxSelections (ps_coll (snd (mongo_createRegistrationAtomic ie e registration s)))
           = map maxSelections (ps_coll s)"
proof -
  obtain r s' where tb: "transaction_body e registration (trim (teamNumber registration)) s = (r, s')"
    by (cases "transaction_body e registration (trim (teamNumber registration)) s") auto
  from transaction_body_shape [OF tb] c tb show ?thesis
    by (cases r) (simp_all add: mongo_create_connected)
qed

lemma mongo_create_regs:
  assumes c: "connected s"
  shows "(regs_coll (snd (mongo_createRegistrationAtomic ie e registration s)) = regs_coll s
          \<and> \<not> succeeded (fst (mongo_createRegistrationAtomic ie e registration s)))
       \<or> (succeeded (fst (mongo_createRegistrationAtomic ie e registration s))
          \<and> \<not> list_ex (\<lambda>r. teamNumber r = trim (teamNumber registration)) (regs_coll s)
          \<and> regs_coll (snd (mongo_createRegistrationAtomic ie e registration s)) = regs_coll s @
               [\<lparr>teamNumber = trim (teamNumber registration), teamName = teamName registration,
                 teamLeader = teamLeader registration,
                 problemStatementId = problemStatementId registration,
                 registrationDateTime = clock e\<rparr>]
          \<and> (distinct (map ps_id (ps_coll s)) \<longrightarrow>
               (\<exists>problem. find (\<lambda>p. ps_id p = problemStatementId registration) (ps_coll s) = Some problem
                  \<and> selected_lt (int (regCount (problemStatementId registration) (regs_coll s)))
                       (maxSel (stored_value (maxSelections problem))))))"
proof -
  obtain r s' where tb: "transaction_body e registration (trim (teamNumber registration)) s = (r, s')"
    by (cases "transaction_body e registration (trim (teamNumber registration)) s") auto
  show ?thesis
  proof (cases r)
    case (Inl err)
    with c tb show ?thesis by (simp add: mongo_create_connected succeeded_def)
  next
    case (Inr v)
    have m: "mongo_createRegistrationAtomic ie e registration s = (r, s')"
      using c tb Inr by (simp add: mongo_create_connected)
    show ?thesis
    proof (cases "succeeded r")
      case True
      from transaction_body_shape [OF tb] True transaction_body_capacity [OF _ tb True]
      show ?thesis by (simp add: m)
    next
      case False
      with transaction_body_shape [OF tb] show ?thesis by (simp add: m)
    qed
  qed
qed

lemma selected_lt_limit:
  assumes "1 \<le> N" and "selected_lt (int c) (maxSel (stored_value (Some (Fin (of_nat N)))))"
  shows "c < N"
  using assms by (simp add: maxSel_stored_nat selected_lt_def)

lemma mongo_create_within:
  assumes inv: "mongo_within_capacity pid N s" and N: "1 \<le> N"
  shows "mongo_within_capacity pid N (snd (mongo_createRegistrationAtomic ie e registration s))"
proof -
  let ?s' = "snd (mongo_createRegistrationAtomic ie e registration s)"
  from inv have c: "connected s" and d: "distinct (map ps_id (ps_coll s))"
    and l: "list_all (\<lambda>p. ps_id p = pid \<longrightarrow> maxSelections p = Some (Fin (of_nat N))) (ps_coll s)"
    and n: "regCount pid (regs_coll s) \<le> N"
    by (simp_all add: mongo_within_capacity_def)
  note sh = mongo_create_shape [OF c, of ie e registration]
  have l': "list_all (\<lambda>p. ps_id p = pid \<longrightarrow> maxSelections p = Some (Fin (of_nat N))) (ps_coll ?s')"
    by (rule limits_transfer [OF _ _ l]) (simp_all add: sh)
  have "regCount pid (regs_coll ?s') \<le> N"
    using mongo_create_regs [OF c, of ie e registration]
  proof (elim disjE conjE)
    assume "regs_coll ?s' = regs_coll s"
    with n show ?thesis by simp
  next
    assume r: "regs_coll ?s' = regs_coll s @
               [\<lparr>teamNumber = trim (teamNumber registration), teamName = teamName registration,
                 teamLeader = teamLeader registration,
                 problemStatementId = problemStatementId registration,
                 registrationDateTime = clock e\<rparr>]"
      and cap: "distinct (map ps_id (ps_coll s)) \<longrightarrow>
               (\<exists>problem. find (\<lambda>p. ps_id p = problemStatementId registration) (ps_coll s) = Some problem
                  \<and> selected_lt (int (regCount (problemStatementId registration) (regs_coll s)))
                       (maxSel (stored_value (maxSelections problem))))"
    show ?thesis
    proof (cases "problemStatementId registration = pid")
      case False
      with r n show ?thesis by (simp add: regCount_append)
    next
      case True
      from cap d obtain problem where
        f: "find (\<lambda>p. ps_id p = problemStatementId registration) (ps_coll s) = Some problem"
        and lt: "selected_lt (int (regCount (problemStatementId registration) (regs_coll s)))
                       (maxSel (stored_value (maxSelections problem)))"
        by blast
      from find_ps_id [OF f] True l have "maxSelections problem = Some (Fin (of_nat N))"
        by (auto simp: list_all_iff)
      with lt True have "regCount pid (regs_coll s) < N"
        using selected_lt_limit [OF N] by simp
      with r True show ?thesis by (simp add: regCount_append)
    qed
  qed
  with sh d l' show ?thesis by (simp add: mongo_within_capacity_def)
qed

lemma mongo_delete_connected:
  assumes "connected s"
  shows "mongo_deleteRegistration ie t s =
     (case find (\<lambda>r. teamNumber r = trim t) (regs_coll s) of
        None \<Rightarrow> (Inr 0, s)
      | Some reg \<Rightarrow>
          (Inr 1, s\<lparr>regs_coll := deleteOne (\<lambda>r. teamNumber r = trim t) (regs_coll s),
                    ps_coll := (if problemStatementId reg \<noteq> []
                                then updateOne (\<lambda>p. ps_id p = problemStatementId reg)
                                       (inc_selectedCount (- 1)) (ps_coll s)
                                else ps_coll s)\<rparr>))"
  using assms
  by (simp add: mongo_deleteRegistration_def ensure_init_def Let_def split: option.splits)

lemma deleteOne_regCount_le: "regCount pid (deleteOne P regs) \<le> regCount pid regs"
  by (induction regs) (auto simp: regCount_def)

lemma mongo_delete_within:
  assumes inv: "mongo_within_capacity pid N s"
  shows "mongo_within_capacity pid N (snd (mongo_deleteRegistration ie t s))"
proof -
  from inv have c: "connected s" and d: "distinct (map ps_id (ps_coll s))"
    and l: "list_all (\<lambda>p. ps_id p = pid \<longrightarrow> maxSelections p = Some (Fin (of_nat N))) (ps_coll s)"
    and n: "regCount pid (regs_coll s) \<le> N"
    by (simp_all add: mongo_within_capacity_def)
  have l': "list_all (\<lambda>p. ps_id p = pid \<longrightarrow> maxSelections p = Some (Fin (of_nat N)))
              (updateOne P (inc_selectedCount (- 1)) (ps_coll s))" for P
    by (rule limits_transfer [OF _ _ l]) simp_all
  have n': "regCount pid (deleteOne (\<lambda>r. teamNumber r = trim t) (regs_coll s)) \<le> N"
    using deleteOne_regCount_le [of pid "\<lambda>r. teamNumber r = trim t" "regs_coll s"] n by simp
  show ?thesis
    using c d l l' n n'
    by (auto simp: mongo_delete_connected mongo_within_capacity_def split: option.splits)
qed

lemma mongo_run_within:
  assumes "mongo_within_capacity pid N s" and "1 \<le> N"
  shows "mongo_within_capacity pid N (mongo_run ie ops s)"
  using assms(1)
proof (induction ops arbitrary: s)
  case Nil
  then show ?case by simp
next
  case (Cons op ops)
  have "mongo_within_capacity pid N (mongo_step ie op s)"
    by (cases op) (simp_all add: mongo_create_within [OF Cons.prems assms(2)] mongo_delete_within [OF Cons.prems])
  then show ?case using Cons.IH by simp
qed

lemma mongo_create_unique:
  assumes inv: "mongo_unique_teams s"
  shows "mongo_unique_teams (snd (mongo_createRegistrationAtomic ie e registration s))"
proof -
  let ?s' = "snd (mongo_createRegistrationAtomic ie e registration s)"
  from inv have c: "connected s"
    and tr: "list_all (\<lambda>r. trim (teamNumber r) = teamNumber r) (regs_coll s)"
    and di: "distinct (map teamNumber (regs_coll s))"
    by (simp_all add: mongo_unique_teams_def)
  have c': "connected ?s'" using mongo_create_shape [OF c, of ie e registration] by simp
  have "list_all (\<lambda>r. trim (teamNumber r) = teamNumber r) (regs_coll ?s')
      \<and> distinct (map teamNumber (regs_coll ?s'))"
    using mongo_create_regs [OF c, of ie e registration]
  proof (elim disjE conjE)
    assume "regs_coll ?s' = regs_coll s"
    with tr di show ?thesis by simp
  next
    assume nd: "\<not> list_ex (\<lambda>r. teamNumber r = trim (teamNumber registration)) (regs_coll s)"
      and r: "regs_coll ?s' = regs_coll s @
               [\<lparr>teamNumber = trim (teamNumber registration), teamName = teamName registration,
                 teamLeader = teamLeader registration,
                 problemStatementId = problemStatementId registration,
                 registrationDateTime = clock e\<rparr>]"
    from nd have "trim (teamNumber registration) \<notin> set (map teamNumber (regs_coll s))"
      by (auto simp: list_ex_iff)
    with tr di show ?thesis by (simp add: r trim_idem)
  qed
  with c' show ?thesis by (simp add: mongo_unique_teams_def)
qed

lemma mongo_delete_unique:
  assumes inv: "mongo_unique_teams s"
  shows "mongo_unique_teams (snd (mongo_deleteRegistration ie t s))"
proof -
  from inv have c: "connected s" by (simp add: mongo_unique_teams_def)
  from inv show ?thesis
    by (auto simp: mongo_delete_connected [OF c] mongo_unique_teams_def deleteOne_distinct
        deleteOne_list_all split: option.splits)
qed

lemma mongo_run_unique:
  assumes "mongo_unique_teams s"
  shows "mongo_unique_teams (mongo_run ie ops s)"
  using assms
proof (induction ops arbitrary: s)
  case Nil
  then show ?case by simp
next
  case (Cons op ops)
  have "mongo_unique_teams (mongo_step ie op s)"
    by (cases op) (simp_all add: mongo_create_unique [OF Cons.prems] mongo_delete_unique [OF Cons.prems])
  then show ?case using Cons.IH by simp
qed

lemma mongo_unique_teams_trimmed:
  assumes a: "mongo_unique_teams s"
  shows "unique_teams (regs_coll s)"
proof -
  have eq: "map (\<lambda>r. trim (teamNumber r)) (regs_coll s) = map teamNumber (regs_coll s)"
    using a by (intro map_cong refl) (simp add: mongo_unique_teams_def list_all_iff)
  show ?thesis
    unfolding unique_teams_def eq using a by (simp add: mongo_unique_teams_def)
qed

lemma mongo_full_rejects:
  assumes inv: "mongo_within_capacity pid N s" and N: "1 \<le> N"
    and full: "regCount pid (regs_coll s) = N" and t: "problemStatementId registration = pid"
  shows "fst (mongo_createRegistrationAtomic ie e registration s) = Inr None
       \<and> regs_coll (snd (mongo_createRegistrationAtomic ie e registration s)) = regs_coll s"
proof -
  from inv have c: "connected s" and d: "distinct (map ps_id (ps_coll s))"
    and l: "list_all (\<lambda>p. ps_id p = pid \<longrightarrow> maxSelections p = Some (Fin (of_nat N))) (ps_coll s)"
    by (simp_all add: mongo_within_capacity_def)
  obtain r s' where tb: "transaction_body e registration (trim (teamNumber registration)) s = (r, s')"
    by (cases "transaction_body e registration (trim (teamNumber registration)) s") auto
  have r: "r = Inr None"
  proof (cases "list_ex (\<lambda>r. teamNumber r = trim (teamNumber registration)) (regs_coll s)")
    case True
    with tb show ?thesis by (simp add: transaction_body_duplicate)
  next
    case nd: False
    show ?thesis
    proof (cases "find (\<lambda>p. ps_id p = problemStatementId registration) (ps_coll s)")
      case None
      with tb nd show ?thesis by (simp add: transaction_body_not_found)
    next
      case (Some problem)
      from find_ps_id [OF Some] t l have "maxSelections problem = Some (Fin (of_nat N))"
        by (auto simp: list_all_iff)
      then have "\<not> selected_lt (int (regCount (problemStatementId registration) (regs_coll s)))
                (maxSel (stored_value (maxSelections problem)))"
        using full t N by (simp add: maxSel_stored_nat selected_lt_def)
      from transaction_body_full [OF d Some this, of e "trim (teamNumber registration)"] tb
      show ?thesis by simp
    qed
  qed
  from transaction_body_shape [OF tb] r have "regs_coll s' = regs_coll s"
    by (simp add: succeeded_def)
  with c tb r show ?thesis by (simp add: mongo_create_connected)
qed

lemma mongo_duplicate_rejects:
  assumes c: "connected s"
    and dup: "list_ex (\<lambda>r. teamNumber r = trim (teamNumber registration)) (regs_coll s)"
  shows "mongo_createRegistrationAtomic ie e registration s = (Inr None, s)"
  using c dup by (simp add: mongo_create_connected transaction_body_duplicate)

lemma mongo_failure_state:
  assumes c: "connected s" and ns: "\<not> succeeded (fst (mongo_createRegistrationAtomic ie e registration s))"
  shows "snd (mongo_createRegistrationAtomic ie e registration s) = s
       \<or> snd (mongo_createRegistrationAtomic ie e registration s)
           = reconcile (problemStatementId registration) s"
proof -
  obtain r s' where tb: "transaction_body e registration (trim (teamNumber registration)) s = (r, s')"
    by (cases "transaction_body e registration (trim (teamNumber registration)) s") auto
  show ?thesis
  proof (cases r)
    case (Inl err)
    with c tb show ?thesis by (simp add: mongo_create_connected)
  next
    case (Inr v)
    with c tb ns have "\<not> succeeded (Inr v)" by (simp add: mongo_create_connected)
    from transaction_body_unsuccessful [OF tb [unfolded Inr] this] c tb Inr
    show ?thesis by (simp add: mongo_create_connected)
  qed
qed

section \<open>Evaluations on the example data\<close>

lemma trim_examples [simp]:
  "trim ''T1'' = ''T1''" "trim ''T2'' = ''T2''" "trim ''T1 '' = ''T1''" "trim '' T3 '' = ''T3''"
  by (simp_all add: trim_def isWhiteSpace_def)

lemma accepts_T1_again: "\<not> accepts reg_T1_again (readFromSource file_store0)"
  by (simp add: accepts_def readFromSource_def file_store0_def one_doc_def reg_T1_again_def reg_T1_def)

lemma drifted_registration:
  "mongo_createRegistrationAtomic no_init txn_ok reg_T3 drifted_store =
     (Inr None, reconcile ''ps001'' drifted_store)"
  by (simp add: mongo_createRegistrationAtomic_def ensure_init_def withTransaction_def
      transaction_body_def drifted_store_def reg_T3_def catalog_def reg_T1_def reg_T2_def
      reconcile_def regCount_def maxSel_def stored_value_def parsedMax_def selected_lt_def Let_def)

lemma reconcile_drifted: "reconcile ''ps001'' drifted_store \<noteq> drifted_store"
  by (simp add: reconcile_def drifted_store_def catalog_def regCount_def reg_T1_def reg_T2_def)

lemma T1_again_outcome:
  "json_createRegistrationAtomic free_env reg_T1_again file_store0
     = (Inr None, file_store0, [LockCreated, SourceRead, LockUnlinked])"
  using accepts_T1_again
  by (simp add: json_createRegistrationAtomic_def attempts.simps [of 0] critical_section_eq
      maxRetries_def free_env_def file_store0_def)

lemma held_outcome:
  "json_createRegistrationAtomic held_env reg_T3 file_store0
     = (Inl lockExhausted, file_store0, concat (replicate 10 [LockConflict, Slept 50]))"
  using attempts_all_held [of file_store0 0 held_env reg_T3]
  by (simp add: json_createRegistrationAtomic_def file_store0_def lockHeld_def held_env_def
      maxRetries_def retryDelay_def)

lemma failed_write_outcome:
  "fst (json_createRegistrationAtomic write_fails_env reg_T3 file_store0) = Inl io_error"
  "fst (snd (json_createRegistrationAtomic write_fails_env reg_T3 file_store0))
     = file_store0\<lparr>memoryData := Some (one_doc\<lparr>registrations :=
           [reg_T1, new_record ''2025-01-01T00:00:03.000Z'' reg_T3]\<rparr>)\<rparr>"
  by (simp_all add: json_createRegistrationAtomic_def attempts.simps critical_section_def atomicWrite_def
      readFromSource_def maxRetries_def retryDelay_def write_fails_env_def file_store0_def one_doc_def
      catalog_def reg_T1_def reg_T3_def new_record_def json_doc_def json_num_def count_ge_def
      trim_def isWhiteSpace_def Let_def)

section \<open>Failed registrations\<close>

text \<open>
  C3, as stated, fails: on the drifted store a registration for the full statement
  \<open>ps001\<close> returns \<open>null\<close>, and the store is not what it was, because the
  reconciliation of \<open>selectedCount\<close> has been committed.
\<close>

theorem failed_registration_changes_state:
  "fst (mongo_createRegistrationAtomic no_init txn_ok reg_T3 drifted_store) = Inr None
   \<and> snd (mongo_createRegistrationAtomic no_init txn_ok reg_T3 drifted_store) \<noteq> drifted_store"
  by (simp add: drifted_registration reconcile_drifted)

text \<open>
  C3, amended.  A call of \<open>createRegistrationAtomic\<close> fails when it does not return a
  registration result (it returns \<open>null\<close> or throws).

  File backend: a registration that the document read from the source does not accept
  (its trimmed team number is taken, its problem statement is not found, or the
  statement is full) fails whatever the file system answers, and the whole store (the
  durable source, the in-memory copy and \<open>defaultData\<close>) is what it was.  The same holds
  for every failed call during which no write of the document threw, the call that
  never gets the lock among them.  Of a call during which a write threw nothing is
  stated.

  Document store, once connected: after a failed call, an exception during the insert
  included, the registrations are what they were, and the store is either unchanged or
  differs only in the reconciled \<open>selectedCount\<close> of the targeted problem statement, so
  no reservation of capacity is left.
\<close>

theorem failed_registration_leaves_registrations:
  "(\<not> accepts registration (readFromSource fs) \<longrightarrow>
      \<not> succeeded (fst (json_createRegistrationAtomic env registration fs))
      \<and> fst (snd (json_createRegistrationAtomic env registration fs)) = fs)
   \<and> (\<not> succeeded (fst (json_createRegistrationAtomic env registration fs))
        \<and> WriteFailed \<notin> set (snd (snd (json_createRegistrationAtomic env registration fs))) \<longrightarrow>
      fst (snd (json_createRegistrationAtomic env registration fs)) = fs)
   \<and> (connected ms \<and> \<not> succeeded (fst (mongo_createRegistrationAtomic ie e registration ms)) \<longrightarrow>
        regs_coll (snd (mongo_createRegistrationAtomic ie e registration ms)) = regs_coll ms
        \<and> (snd (mongo_createRegistrationAtomic ie e registration ms) = ms
           \<or> snd (mongo_createRegistrationAtomic ie e registration ms)
               = reconcile (problemStatementId registration) ms))"
proof (intro conjI impI)
  assume na: "\<not> accepts registration (readFromSource fs)"
  from attempts_rejected [OF na, of 0 env]
  show "\<not> succeeded (fst (json_createRegistrationAtomic env registration fs))"
    and "fst (snd (json_createRegistrationAtomic env registration fs)) = fs"
    by (simp_all add: json_createRegistrationAtomic_def)
next
  assume ns: "\<not> succeeded (fst (json_createRegistrationAtomic env registration fs))
      \<and> WriteFailed \<notin> set (snd (snd (json_createRegistrationAtomic env registration fs)))"
  obtain r s' t where a: "attempts 0 env registration fs = (r, s', t)"
    by (cases "attempts 0 env registration fs") auto
  from attempts_failure_unchanged [OF a] ns a
  show "fst (snd (json_createRegistrationAtomic env registration fs)) = fs"
    by (simp add: json_createRegistrationAtomic_def)
next
  assume m: "connected ms \<and> \<not> succeeded (fst (mongo_createRegistrationAtomic ie e registration ms))"
  then have st: "snd (mongo_createRegistrationAtomic ie e registration ms) = ms
       \<or> snd (mongo_createRegistrationAtomic ie e registration ms)
           = reconcile (problemStatementId registration) ms"
    using mongo_failure_state by blast
  then show "regs_coll (snd (mongo_createRegistrationAtomic ie e registration ms)) = regs_coll ms"
    by (elim disjE) simp_all
  from st show "snd (mongo_createRegistrationAtomic ie e registration ms) = ms
       \<or> snd (mongo_createRegistrationAtomic ie e registration ms)
           = reconcile (problemStatementId registration) ms" .
qed

theorem failed_registration_leaves_registrations_witness:
  "\<not> accepts reg_T1_again (readFromSource file_store0)
   \<and> fst (json_createRegistrationAtomic free_env reg_T1_again file_store0) = Inr None
   \<and> fst (snd (json_createRegistrationAtomic free_env reg_T1_again file_store0)) = file_store0
   \<and> \<not> succeeded (fst (json_createRegistrationAtomic held_env reg_T3 file_store0))
   \<and> WriteFailed \<notin> set (snd (snd (json_createRegistrationAtomic held_env reg_T3 file_store0)))
   \<and> fst (snd (json_createRegistrationAtomic held_env reg_T3 file_store0)) = file_store0
   \<and> connected drifted_store
   \<and> \<not> succeeded (fst (mongo_createRegistrationAtomic no_init txn_ok reg_T3 drifted_store))
   \<and> regs_coll (snd (mongo_createRegistrationAtomic no_init txn_ok reg_T3 drifted_store)) = [reg_T1, reg_T2]"
proof -
  have 1: "\<not> succeeded (fst (json_createRegistrationAtomic held_env reg_T3 file_store0))"
    by (simp add: held_outcome succeeded_def)
  have 2: "WriteFailed \<notin> set (snd (snd (json_createRegistrationAtomic held_env reg_T3 file_store0)))"
    by (simp add: held_outcome)
  have 3: "connected drifted_store" by (simp add: drifted_store_def)
  have 4: "\<not> succeeded (fst (mongo_createRegistrationAtomic no_init txn_ok reg_T3 drifted_store))"
    by (simp add: drifted_registration succeeded_def)
  from failed_registration_leaves_registrations
    [where env = free_env and registration = reg_T1_again and fs = file_store0]
    failed_registration_leaves_registrations
    [where env = held_env and registration = reg_T3 and fs = file_store0
       and ms = drifted_store and ie = no_init and e = txn_ok]
    accepts_T1_again 1 2 3 4
  show ?thesis by (simp add: T1_again_outcome drifted_store_def)
qed

text \<open>
  The write that throws.  \<open>#atomicWrite\<close> replaces the in-memory copy before it writes.
  When every write of a call fails, the call throws the write error and the durable
  source is what it was, but \<open>#read()\<close> now serves the registration that was refused,
  and the next write of any operation, here a \<open>deleteRegistration\<close> of an unknown team,
  makes it durable.
\<close>

lemma failed_write_is_served:
  "fst (json_createRegistrationAtomic write_fails_env reg_T3 file_store0) = Inl io_error
   \<and> source (fst (snd (json_createRegistrationAtomic write_fails_env reg_T3 file_store0)))
       = source file_store0
   \<and> map teamNumber (registrations (read_data
         (fst (snd (json_createRegistrationAtomic write_fails_env reg_T3 file_store0)))))
       = [''T1'', ''T3'']
   \<and> map teamNumber (registrations (readFromSource (snd (json_deleteRegistration None ''T9''
         (fst (snd (json_createRegistrationAtomic write_fails_env reg_T3 file_store0)))))))
       = [''T1'', ''T3'']"
  unfolding failed_write_outcome
  by (simp add: file_store0_def read_data_def readFromSource_def
      json_deleteRegistration_def atomicWrite_def one_doc_def catalog_def json_doc_def json_num_def
      reg_T1_def reg_T3_def new_record_def trim_def isWhiteSpace_def Let_def)

text \<open>
  When the source cannot be read, the \<open>push\<close> of the first attempt reaches the array of
  \<open>defaultData\<close>; the write fails, and the second attempt finds the team number of its
  own record and returns \<open>null\<close>, while \<open>#readFromSource\<close> serves the record from then on.
\<close>

lemma failed_write_unreadable_is_served:
  "fst (json_createRegistrationAtomic write_fails_env reg_T3 unreadable_store) = Inr None
   \<and> source (fst (snd (json_createRegistrationAtomic write_fails_env reg_T3 unreadable_store))) = None
   \<and> map teamNumber (registrations (readFromSource unreadable_store)) = [''T1'']
   \<and> map teamNumber (registrations (readFromSource
         (fst (snd (json_createRegistrationAtomic write_fails_env reg_T3 unreadable_store)))))
       = [''T1'', ''T3'']"
  by (simp add: json_createRegistrationAtomic_def attempts.simps critical_section_def atomicWrite_def
      readFromSource_def maxRetries_def retryDelay_def write_fails_env_def unreadable_store_def one_doc_def
      catalog_def reg_T1_def reg_T3_def new_record_def json_doc_def json_num_def count_ge_def
      trim_def isWhiteSpace_def Let_def)

section \<open>The capacity invariant\<close>

text \<open>
  C1.  Let \<open>N \<ge> 1\<close> and let every problem statement with id \<open>pid\<close> have
  \<open>maxSelections = N\<close> (in the document store the ids are distinct), with at most \<open>N\<close>
  registrations referencing \<open>pid\<close> in every document the store holds.  Then after any
  sequence of register and delete calls, whatever the environment answers, at most \<open>N\<close>
  registrations reference \<open>pid\<close>; and when exactly \<open>N\<close> do, a further
  \<open>createRegistrationAtomic\<close> for \<open>pid\<close> adds nothing: the document store returns
  \<open>null\<close>, and the file backend returns \<open>null\<close> as soon as it gets the lock (it can
  only throw instead when the lock or the file system fails) and leaves its state as it
  was.
\<close>

theorem capacity_invariant:
  assumes N: "1 \<le> N"
    and fileinv: "list_all (within_capacity pid N) (held_documents fs)"
    and mongoinv: "mongo_within_capacity pid N ms"
    and target: "problemStatementId registration = pid"
  shows "regCount pid (registrations (readFromSource (json_run fops fs))) \<le> N
       \<and> regCount pid (regs_coll (mongo_run ie mops ms)) \<le> N
       \<and> (regCount pid (registrations (readFromSource (json_run fops fs))) = N \<longrightarrow>
            \<not> succeeded (fst (json_createRegistrationAtomic env registration (json_run fops fs)))
            \<and> fst (snd (json_createRegistrationAtomic env registration (json_run fops fs))) = json_run fops fs
            \<and> (useBlob (json_run fops fs) \<or> lockResult (env 0) = None \<longrightarrow>
                 fst (json_createRegistrationAtomic env registration (json_run fops fs)) = Inr None))
       \<and> (regCount pid (regs_coll (mongo_run ie mops ms)) = N \<longrightarrow>
            fst (mongo_createRegistrationAtomic ie e registration (mongo_run ie mops ms)) = Inr None
            \<and> regs_coll (snd (mongo_createRegistrationAtomic ie e registration (mongo_run ie mops ms)))
                = regs_coll (mongo_run ie mops ms))"
proof -
  let ?fs = "json_run fops fs" and ?ms = "mongo_run ie mops ms"
  have f: "list_all (within_capacity pid N) (held_documents ?fs)"
    by (rule json_run_preserves [OF fileinv])
       (simp_all add: within_capacity_push within_capacity_filter within_capacity_json)
  then have fw: "within_capacity pid N (readFromSource ?fs)" by (rule readFromSource_held)
  have m: "mongo_within_capacity pid N ?ms" by (rule mongo_run_within [OF mongoinv N])
  have 1: "regCount pid (registrations (readFromSource ?fs)) \<le> N"
    using fw by (simp add: within_capacity_def)
  have 2: "regCount pid (regs_coll ?ms) \<le> N"
    using m by (simp add: mongo_within_capacity_def)
  have 3: "\<not> succeeded (fst (json_createRegistrationAtomic env registration ?fs))
            \<and> fst (snd (json_createRegistrationAtomic env registration ?fs)) = ?fs
            \<and> (useBlob ?fs \<or> lockResult (env 0) = None \<longrightarrow>
                 fst (json_createRegistrationAtomic env registration ?fs) = Inr None)"
    if full: "regCount pid (registrations (readFromSource ?fs)) = N"
  proof -
    have na: "\<not> accepts registration (readFromSource ?fs)"
      by (rule full_rejects [OF fw full target])
    from attempts_rejected [OF na, of 0 env] rejected_returns_null [OF na, of env]
    show ?thesis by (simp add: json_createRegistrationAtomic_def)
  qed
  have 4: "fst (mongo_createRegistrationAtomic ie e registration ?ms) = Inr None
            \<and> regs_coll (snd (mongo_createRegistrationAtomic ie e registration ?ms)) = regs_coll ?ms"
    if full: "regCount pid (regs_coll ?ms) = N"
    by (rule mongo_full_rejects [OF m N full target])
  from 1 2 3 4 show ?thesis by blast
qed

lemma catalog_within: "within_capacity ''ps001'' 2 full_doc"
  by (simp add: within_capacity_def full_doc_def catalog_def regCount_def reg_T1_def reg_T2_def)

lemma drifted_within: "mongo_within_capacity ''ps001'' 2 drifted_store"
  by (simp add: mongo_within_capacity_def drifted_store_def catalog_def regCount_def reg_T1_def reg_T2_def)

theorem capacity_invariant_witness:
  "regCount ''ps001'' (registrations (readFromSource full_file_store)) = 2
   \<and> fst (json_createRegistrationAtomic free_env reg_T3 full_file_store) = Inr None
   \<and> fst (snd (json_createRegistrationAtomic free_env reg_T3 full_file_store)) = full_file_store
   \<and> regCount ''ps001'' (regs_coll drifted_store) = 2
   \<and> fst (mongo_createRegistrationAtomic no_init txn_ok reg_T3 drifted_store) = Inr None
   \<and> regCount ''ps001'' (regs_coll (mongo_run no_init [MRegister txn_ok reg_T3] drifted_store)) \<le> 2"
proof -
  have h: "list_all (within_capacity ''ps001'' 2) (held_documents full_file_store)"
    using catalog_within
    by (simp add: held_documents_def full_file_store_def within_capacity_def empty_doc_def regCount_def)
  have c1: "regCount ''ps001'' (registrations (readFromSource full_file_store)) = 2"
    by (simp add: readFromSource_def full_file_store_def full_doc_def regCount_def reg_T1_def reg_T2_def)
  have c2: "regCount ''ps001'' (regs_coll drifted_store) = 2"
    by (simp add: drifted_store_def regCount_def reg_T1_def reg_T2_def)
  have t: "problemStatementId reg_T3 = ''ps001''" by (simp add: reg_T3_def)
  have l: "lockResult (free_env 0) = None" by (simp add: free_env_def)
  from capacity_invariant [where N = 2 and pid = "''ps001''" and fs = full_file_store
      and ms = drifted_store and registration = reg_T3 and fops = "[]" and mops = "[]"
      and env = free_env and ie = no_init and e = txn_ok, OF _ h drifted_within t]
    capacity_invariant [where N = 2 and pid = "''ps001''" and fs = full_file_store
      and ms = drifted_store and registration = reg_T3 and fops = "[]"
      and mops = "[MRegister txn_ok reg_T3]" and ie = no_init, OF _ h drifted_within t]
    c1 c2 l
  show ?thesis by simp
qed

section \<open>The uniqueness invariant\<close>

lemma unique_teams_append:
  "unique_teams (registrations d) \<Longrightarrow> accepts registration d \<Longrightarrow>
   unique_teams (registrations d @ [new_record stamp registration])"
  using unique_teams_push [of d registration stamp] by simp

text \<open>
  C2.  Let the team numbers be unique after trimming in every document the file store
  holds, and let the document store hold trimmed, pairwise different team numbers (as
  after \<open>init\<close>, or after any calls of these operations).  Then after any sequence of
  register and delete calls the team numbers are unique after trimming; and a
  \<open>createRegistrationAtomic\<close> whose trimmed team number is that of an existing
  registration adds nothing: the document store returns \<open>null\<close> and is unchanged, the
  file backend is unchanged and returns \<open>null\<close> as soon as it gets the lock.
\<close>

theorem uniqueness_invariant:
  assumes fileinv: "list_all (\<lambda>d. unique_teams (registrations d)) (held_documents fs)"
    and mongoinv: "mongo_unique_teams ms"
  shows "unique_teams (registrations (readFromSource (json_run fops fs)))
       \<and> unique_teams (regs_coll (mongo_run ie mops ms))
       \<and> (list_ex (\<lambda>r. trim (teamNumber r) = trim (teamNumber registration))
             (registrations (readFromSource (json_run fops fs))) \<longrightarrow>
            \<not> succeeded (fst (json_createRegistrationAtomic env registration (json_run fops fs)))
            \<and> fst (snd (json_createRegistrationAtomic env registration (json_run fops fs))) = json_run fops fs
            \<and> (useBlob (json_run fops fs) \<or> lockResult (env 0) = None \<longrightarrow>
                 fst (json_createRegistrationAtomic env registration (json_run fops fs)) = Inr None))
       \<and> (list_ex (\<lambda>r. trim (teamNumber r) = trim (teamNumber registration))
             (regs_coll (mongo_run ie mops ms)) \<longrightarrow>
            mongo_createRegistrationAtomic ie e registration (mongo_run ie mops ms)
              = (Inr None, mongo_run ie mops ms))"
proof -
  let ?fs = "json_run fops fs" and ?ms = "mongo_run ie mops ms"
  have f: "list_all (\<lambda>d. unique_teams (registrations d)) (held_documents ?fs)"
    by (rule json_run_preserves [OF fileinv]) (simp_all add: unique_teams_append unique_teams_filter)
  then have 1: "unique_teams (registrations (readFromSource ?fs))" by (rule readFromSource_held)
  have m: "mongo_unique_teams ?ms" by (rule mongo_run_unique [OF mongoinv])
  then have 2: "unique_teams (regs_coll ?ms)" by (rule mongo_unique_teams_trimmed)
  have 3: "\<not> succeeded (fst (json_createRegistrationAtomic env registration ?fs))
            \<and> fst (snd (json_createRegistrationAtomic env registration ?fs)) = ?fs
            \<and> (useBlob ?fs \<or> lockResult (env 0) = None \<longrightarrow>
                 fst (json_createRegistrationAtomic env registration ?fs) = Inr None)"
    if dup: "list_ex (\<lambda>r. trim (teamNumber r) = trim (teamNumber registration))
               (registrations (readFromSource ?fs))"
  proof -
    have na: "\<not> accepts registration (readFromSource ?fs)"
      by (rule duplicate_rejects [OF dup])
    from attempts_rejected [OF na, of 0 env] rejected_returns_null [OF na, of env]
    show ?thesis by (simp add: json_createRegistrationAtomic_def)
  qed
  have 4: "mongo_createRegistrationAtomic ie e registration ?ms = (Inr None, ?ms)"
    if dup: "list_ex (\<lambda>r. trim (teamNumber r) = trim (teamNumber registration)) (regs_coll ?ms)"
  proof -
    from m have c: "connected ?ms"
      and tr: "list_all (\<lambda>r. trim (teamNumber r) = teamNumber r) (regs_coll ?ms)"
      by (simp_all add: mongo_unique_teams_def)
    from dup tr have "list_ex (\<lambda>r. teamNumber r = trim (teamNumber registration)) (regs_coll ?ms)"
      by (auto simp: list_ex_iff list_all_iff)
    from mongo_duplicate_rejects [OF c this] show ?thesis .
  qed
  from 1 2 3 4 show ?thesis by blast
qed

theorem uniqueness_invariant_witness:
  "unique_teams (registrations (readFromSource (json_run [Delete None ''T9''] file_store0)))
   \<and> fst (json_createRegistrationAtomic free_env reg_T1_again file_store0) = Inr None
   \<and> fst (snd (json_createRegistrationAtomic free_env reg_T1_again file_store0)) = file_store0
   \<and> mongo_createRegistrationAtomic no_init txn_ok reg_T1_again mongo_store0 = (Inr None, mongo_store0)"
proof -
  have h: "list_all (\<lambda>d. unique_teams (registrations d)) (held_documents file_store0)"
    by (simp add: held_documents_def file_store0_def one_doc_def empty_doc_def unique_teams_def)
  have g: "mongo_unique_teams mongo_store0"
    by (simp add: mongo_unique_teams_def mongo_store0_def reg_T1_def)
  have d1: "list_ex (\<lambda>r. trim (teamNumber r) = trim (teamNumber reg_T1_again))
             (registrations (readFromSource file_store0))"
    by (simp add: readFromSource_def file_store0_def one_doc_def reg_T1_def reg_T1_again_def)
  have d2: "list_ex (\<lambda>r. trim (teamNumber r) = trim (teamNumber reg_T1_again)) (regs_coll mongo_store0)"
    by (simp add: mongo_store0_def reg_T1_def reg_T1_again_def)
  have l: "lockResult (free_env 0) = None" by (simp add: free_env_def)
  from uniqueness_invariant [where fs = file_store0 and ms = mongo_store0 and fops = "[]"
      and mops = "[]" and registration = reg_T1_again and env = free_env and ie = no_init
      and e = txn_ok, OF h g]
    uniqueness_invariant [where fs = file_store0 and ms = mongo_store0
      and fops = "[Delete None ''T9'']" and mops = "[]", OF h g]
    d1 d2 l
  show ?thesis by simp
qed

section \<open>Deleting a registration\<close>

lemma deleteOne_changes:
  "length xs - length (deleteOne P xs) = (case find P xs of None \<Rightarrow> 0 | Some x \<Rightarrow> 1)"
  by (induction xs) (auto split: option.splits)

lemma deleteOne_no_match:
  "distinct (map f xs) \<Longrightarrow> \<not> list_ex (\<lambda>r. f r = t) (deleteOne (\<lambda>r. f r = t) xs)"
  by (simp add: filter_is_deleteOne [symmetric] list_ex_iff)

lemma find_trimmed:
  "list_all (\<lambda>r. trim (teamNumber r) = teamNumber r) xs \<Longrightarrow>
   find (\<lambda>r. trim (teamNumber r) = t) xs = find (\<lambda>r. teamNumber r = t) xs"
  by (induction xs) auto

lemma deleteOne_trimmed:
  "list_all (\<lambda>r. trim (teamNumber r) = teamNumber r) xs \<Longrightarrow>
   deleteOne (\<lambda>r. trim (teamNumber r) = t) xs = deleteOne (\<lambda>r. teamNumber r = t) xs"
  by (induction xs) auto

lemma json_delete_unique:
  assumes u: "unique_teams (registrations (read_data s))"
  shows "json_deleteRegistration None t s =
     (Inr (case find (\<lambda>r. trim (teamNumber r) = trim t) (registrations (read_data s)) of
             None \<Rightarrow> 0 | Some r \<Rightarrow> 1),
      s\<lparr>memoryData := Some (json_doc ((read_data s)\<lparr>registrations :=
            deleteOne (\<lambda>r. trim (teamNumber r) = trim t) (registrations (read_data s))\<rparr>)),
        source := Some (json_doc ((read_data s)\<lparr>registrations :=
            deleteOne (\<lambda>r. trim (teamNumber r) = trim t) (registrations (read_data s))\<rparr>))\<rparr>)"
proof -
  have fd: "filter (\<lambda>r. trim (teamNumber r) \<noteq> trim t) (registrations (read_data s))
      = deleteOne (\<lambda>r. trim (teamNumber r) = trim t) (registrations (read_data s))"
    using u unfolding unique_teams_def by (rule filter_is_deleteOne)
  show ?thesis
    by (simp add: json_deleteRegistration_def atomicWrite_def Let_def fd deleteOne_changes)
qed

text \<open>
  C6.  Let the team numbers of the file store's document be unique after trimming, and
  let the document store be connected and hold trimmed team numbers.  When no
  registration has the trimmed team number, \<open>deleteRegistration\<close> returns 0 changes
  without an error and the registrations are what they were.  Otherwise it returns 1,
  removes the first matching registration, and the number of registrations that
  reference any problem statement id goes down by exactly one for the id of the removed
  registration and stays the same for every other id; the document store also lowers the
  cached \<open>selectedCount\<close> of that statement by one.  (The file backend writes the
  document in either case; the statement is for a write that succeeds.)
\<close>

theorem deleteRegistration_postcondition:
  assumes fileinv: "unique_teams (registrations (read_data fs))"
    and mongoinv: "connected ms"
      "list_all (\<lambda>r. trim (teamNumber r) = teamNumber r) (regs_coll ms)"
  shows "(case find (\<lambda>r. trim (teamNumber r) = trim t) (registrations (read_data fs)) of
            None \<Rightarrow>
              fst (json_deleteRegistration None t fs) = Inr 0
              \<and> registrations (readFromSource (snd (json_deleteRegistration None t fs)))
                  = registrations (read_data fs)
          | Some r \<Rightarrow>
              fst (json_deleteRegistration None t fs) = Inr 1
              \<and> registrations (readFromSource (snd (json_deleteRegistration None t fs)))
                  = deleteOne (\<lambda>r. trim (teamNumber r) = trim t) (registrations (read_data fs))
              \<and> \<not> list_ex (\<lambda>r. trim (teamNumber r) = trim t)
                    (registrations (readFromSource (snd (json_deleteRegistration None t fs))))
              \<and> (\<forall>pid. regCount pid (registrations (readFromSource (snd (json_deleteRegistration None t fs))))
                          + (if problemStatementId r = pid then 1 else 0)
                        = regCount pid (registrations (read_data fs))))
       \<and> (case find (\<lambda>r. trim (teamNumber r) = trim t) (regs_coll ms) of
            None \<Rightarrow> mongo_deleteRegistration ie t ms = (Inr 0, ms)
          | Some r \<Rightarrow>
              fst (mongo_deleteRegistration ie t ms) = Inr 1
              \<and> regs_coll (snd (mongo_deleteRegistration ie t ms))
                  = deleteOne (\<lambda>r. trim (teamNumber r) = trim t) (regs_coll ms)
              \<and> (\<forall>pid. regCount pid (regs_coll (snd (mongo_deleteRegistration ie t ms)))
                          + (if problemStatementId r = pid then 1 else 0)
                        = regCount pid (regs_coll ms))
              \<and> ps_coll (snd (mongo_deleteRegistration ie t ms))
                  = (if problemStatementId r \<noteq> []
                     then updateOne (\<lambda>p. ps_id p = problemStatementId r) (inc_selectedCount (- 1)) (ps_coll ms)
                     else ps_coll ms))"
proof (intro conjI)
  let ?P = "\<lambda>r. trim (teamNumber r) = trim t"
  let ?regs = "registrations (read_data fs)"
  have after: "registrations (readFromSource (snd (json_deleteRegistration None t fs))) = deleteOne ?P ?regs"
    by (simp add: json_delete_unique [OF fileinv] readFromSource_def)
  show "case find ?P ?regs of
            None \<Rightarrow>
              fst (json_deleteRegistration None t fs) = Inr 0
              \<and> registrations (readFromSource (snd (json_deleteRegistration None t fs))) = ?regs
          | Some r \<Rightarrow>
              fst (json_deleteRegistration None t fs) = Inr 1
              \<and> registrations (readFromSource (snd (json_deleteRegistration None t fs))) = deleteOne ?P ?regs
              \<and> \<not> list_ex ?P (registrations (readFromSource (snd (json_deleteRegistration None t fs))))
              \<and> (\<forall>pid. regCount pid (registrations (readFromSource (snd (json_deleteRegistration None t fs))))
                          + (if problemStatementId r = pid then 1 else 0)
                        = regCount pid ?regs)"
  proof (cases "find ?P ?regs")
    case None
    then show ?thesis
      by (simp add: after deleteOne_none) (simp add: json_delete_unique [OF fileinv])
  next
    case (Some r)
    have nm: "\<not> list_ex ?P (deleteOne ?P ?regs)"
      using fileinv unfolding unique_teams_def by (rule deleteOne_no_match)
    from Some nm deleteOne_regCount [OF Some] show ?thesis
      by (simp add: after) (simp add: json_delete_unique [OF fileinv])
  qed
next
  let ?P = "\<lambda>r. trim (teamNumber r) = trim t"
  let ?Q = "\<lambda>r. teamNumber r = trim t"
  have pq: "find ?P (regs_coll ms) = find ?Q (regs_coll ms)"
    using mongoinv(2) by (rule find_trimmed)
  have dq: "deleteOne ?P (regs_coll ms) = deleteOne ?Q (regs_coll ms)"
    using mongoinv(2) by (rule deleteOne_trimmed)
  show "case find ?P (regs_coll ms) of
            None \<Rightarrow> mongo_deleteRegistration ie t ms = (Inr 0, ms)
          | Some r \<Rightarrow>
              fst (mongo_deleteRegistration ie t ms) = Inr 1
              \<and> regs_coll (snd (mongo_deleteRegistration ie t ms)) = deleteOne ?P (regs_coll ms)
              \<and> (\<forall>pid. regCount pid (regs_coll (snd (mongo_deleteRegistration ie t ms)))
                          + (if problemStatementId r = pid then 1 else 0)
                        = regCount pid (regs_coll ms))
              \<and> ps_coll (snd (mongo_deleteRegistration ie t ms))
                  = (if problemStatementId r \<noteq> []
                     then updateOne (\<lambda>p. ps_id p = problemStatementId r) (inc_selectedCount (- 1)) (ps_coll ms)
                     else ps_coll ms)"
  proof (cases "find ?Q (regs_coll ms)")
    case None
    then show ?thesis by (simp add: pq mongo_delete_connected [OF mongoinv(1)])
  next
    case (Some r)
    from deleteOne_regCount [OF Some] Some show ?thesis
      by (simp add: pq dq mongo_delete_connected [OF mongoinv(1)])
  qed
qed

theorem deleteRegistration_postcondition_witness:
  "fst (json_deleteRegistration None ''T1 '' file_store0) = Inr 1
   \<and> registrations (readFromSource (snd (json_deleteRegistration None ''T1 '' file_store0))) = []
   \<and> regCount ''ps001'' (registrations (readFromSource (snd (json_deleteRegistration None ''T1 '' file_store0)))) + 1
       = regCount ''ps001'' (registrations (read_data file_store0))
   \<and> fst (mongo_deleteRegistration no_init ''T1 '' mongo_store0) = Inr 1
   \<and> regs_coll (snd (mongo_deleteRegistration no_init ''T1 '' mongo_store0)) = []"
proof -
  have h: "unique_teams (registrations (read_data file_store0))"
    by (simp add: read_data_def file_store0_def one_doc_def unique_teams_def)
  have c: "connected mongo_store0" by (simp add: mongo_store0_def)
  have g: "list_all (\<lambda>r. trim (teamNumber r) = teamNumber r) (regs_coll mongo_store0)"
    by (simp add: mongo_store0_def reg_T1_def)
  have f1: "find (\<lambda>r. trim (teamNumber r) = trim ''T1 '') (registrations (read_data file_store0)) = Some reg_T1"
    by (simp add: read_data_def file_store0_def one_doc_def reg_T1_def)
  have f2: "find (\<lambda>r. trim (teamNumber r) = trim ''T1 '') (regs_coll mongo_store0) = Some reg_T1"
    by (simp add: mongo_store0_def reg_T1_def)
  have p: "problemStatementId reg_T1 = ''ps001''" by (simp add: reg_T1_def)
  have d1: "deleteOne (\<lambda>r. trim (teamNumber r) = trim ''T1 '') (registrations (read_data file_store0)) = []"
    by (simp add: read_data_def file_store0_def one_doc_def reg_T1_def)
  have d2: "deleteOne (\<lambda>r. trim (teamNumber r) = trim ''T1 '') (regs_coll mongo_store0) = []"
    by (simp add: mongo_store0_def reg_T1_def)
  from deleteRegistration_postcondition [where fs = file_store0 and ms = mongo_store0
      and t = "''T1 ''" and ie = no_init, OF h c g]
  show ?thesis
    unfolding f1 f2 d1 d2 option.case p
    by (auto simp: regCount_def mongo_store0_def reg_T1_def)
qed

section \<open>The coercion of maxSelections, proved\<close>

lemma number_of_nat_cases: "number_of_nat n = PosInf \<or> (\<exists>k. number_of_nat n = Fin (of_nat k))"
  by (simp only: number_of_nat_def Let_def split: if_split) blast

lemma parseInt_cases:
  "parseInt str = NaN \<or> parseInt str = PosInf \<or> parseInt str = NegInf
   \<or> (\<exists>k::int. parseInt str = Fin (of_int k))"
proof -
  define minus where "minus = (case dropWhile isWhiteSpace str of c # cs \<Rightarrow> c = CHR ''-'' | [] \<Rightarrow> False)"
  define Z where "Z = takeWhile isDigit
      (case dropWhile isWhiteSpace str of
         c # cs \<Rightarrow> if c = CHR ''+'' \<or> c = CHR ''-'' then cs else dropWhile isWhiteSpace str
       | [] \<Rightarrow> dropWhile isWhiteSpace str)"
  have p: "parseInt str = (if Z = [] then NaN
                          else if minus then negate (number_of_nat (digits_value Z))
                          else number_of_nat (digits_value Z))"
    by (simp add: parseInt_def Let_def Z_def minus_def)
  let ?n = "number_of_nat (digits_value Z)"
  from number_of_nat_cases [of "digits_value Z"]
  have pos: "?n = PosInf \<or> (\<exists>k::int. ?n = Fin (of_int k))"
    by (metis of_int_of_nat_eq)
  then have neg: "negate ?n = NegInf \<or> (\<exists>k::int. negate ?n = Fin (of_int k))"
    by (auto simp: negate_def) (metis of_int_minus)
  from pos neg show ?thesis
    unfolding p by (cases "Z = []"; cases minus) auto
qed

lemma floored_integer: "1 \<le> k \<Longrightarrow> floored (Fin (of_int k))"
  by (simp add: floored_def is_integer_ge1_def)

lemma floored_max_one:
  assumes "x = NaN \<or> x = PosInf \<or> x = NegInf \<or> (\<exists>k::int. x = Fin (of_int k))"
  shows "floored (math_max (Fin 1) (or_zero x))"
proof -
  have "floored (Fin (max 1 (of_int k)))" for k :: int
  proof -
    have "max (1::rat) (of_int k) = of_int (max 1 k)" by (simp add: max_def)
    then show ?thesis using floored_integer [of "max 1 k"] by simp
  qed
  with assms show ?thesis
    by (auto simp: or_zero_def floored_def is_integer_ge1_def)
qed

lemma maxSel_floored: "integral_input v \<Longrightarrow> floored (maxSel v)"
proof (cases v)
  case (JNum n)
  assume "integral_input v"
  with JNum obtain q where n: "n = Fin q" and q: "q = of_int \<lfloor>q\<rfloor>"
    by (auto simp: integral_input_def split: jsnum.splits)
  have "max 1 q = of_int (max 1 \<lfloor>q\<rfloor>)"
    using q by (metis of_int_1 of_int_max)
  then have "floored (Fin (max 1 q))" using floored_integer [of "max 1 \<lfloor>q\<rfloor>"] by simp
  with JNum n show ?thesis by (simp add: maxSel_def parsedMax_def)
qed (simp_all add: maxSel_def parsedMax_def floored_max_one parseInt_cases)

lemma maxSel_low:
  "parsedMax v = Fin q \<Longrightarrow> q \<le> 1 \<Longrightarrow> maxSel v = Fin 1"
  by (simp add: maxSel_def max_def)

lemma maxSel_not_numeric:
  "str \<noteq> [] \<Longrightarrow> parseInt str = NaN \<Longrightarrow> maxSel (JStr str) = Fin 1"
  by (simp add: maxSel_def parsedMax_def or_zero_def)

lemma maxSel_stored_floored: "stored_floored m \<Longrightarrow> floored (maxSel (stored_value m))"
proof (cases m)
  case None
  have "parseInt ''0'' = Fin 0"
    by (simp add: parseInt_def isWhiteSpace_def isDigit_def digits_value_def number_of_nat_def)
  with None show ?thesis
    by (simp add: stored_value_def maxSel_def parsedMax_def or_zero_def floored_def is_integer_ge1_def)
next
  case (Some n)
  assume "stored_floored m"
  with Some show ?thesis
    by (auto simp: stored_floored_def floored_def is_integer_ge1_def stored_value_def maxSel_def
        parsedMax_def max_def split: jsnum.splits)
qed

lemma fraction_not_integer: "\<not> is_integer_ge1 (Fin (5 / 2))"
proof -
  have "\<lfloor>5 / 2 :: rat\<rfloor> = 2" by (rule floor_unique) simp_all
  then have "(5 / 2 :: rat) \<noteq> of_int \<lfloor>5 / 2 :: rat\<rfloor>" by simp
  then show ?thesis by (simp only: is_integer_ge1_def jsnum.case) blast
qed

section \<open>The floor and the catalog operations\<close>

lemma new_problem_statement_floored:
  "integral_input (in_maxSelections p) \<Longrightarrow> stored_floored (maxSelections (new_problem_statement p))"
  by (simp add: new_problem_statement_def stored_floored_def maxSel_floored)

lemma json_num_floored: "stored_floored m \<Longrightarrow> stored_floored (json_num m)"
  by (auto simp: stored_floored_def json_num_def split: option.splits jsnum.splits)

lemma json_doc_floored:
  "catalog_floored (problemStatements d) \<Longrightarrow> catalog_floored (problemStatements (json_doc d))"
  by (simp add: catalog_floored_def json_doc_def list_all_iff json_num_floored)

lemma catalog_floored_append [simp]:
  "catalog_floored (xs @ ys) = (catalog_floored xs \<and> catalog_floored ys)"
  by (simp add: catalog_floored_def)

lemma catalog_floored_new:
  "list_all integral_input (map in_maxSelections inputs) \<Longrightarrow>
   catalog_floored (map new_problem_statement inputs)"
  by (induction inputs) (simp_all add: catalog_floored_def new_problem_statement_floored)

lemma catalog_floored_new_filter:
  "list_all integral_input (map in_maxSelections inputs) \<Longrightarrow>
   catalog_floored (map new_problem_statement (filter P inputs))"
  by (induction inputs) (simp_all add: catalog_floored_def new_problem_statement_floored)

lemma catalog_floored_take: "catalog_floored xs \<Longrightarrow> catalog_floored (take k xs)"
  unfolding catalog_floored_def list_all_iff using set_take_subset [of k xs] by blast

lemma catalog_floored_update:
  assumes "catalog_floored xs" and "stored_floored (maxSelections x)"
  shows "catalog_floored (xs[i := x])"
  using assms set_update_subset_insert [of xs i x]
  unfolding catalog_floored_def list_all_iff by blast

lemma updateOne_list_all:
  assumes "list_all Q xs" and "\<And>x. Q x \<Longrightarrow> Q (f x)"
  shows "list_all Q (updateOne P f xs)"
  using assms(1) by (induction xs) (auto simp: assms(2))

lemma json_apply_updates_floored:
  assumes "integral_input (up_max_selections u)" and "integral_input (up_maxSelections u)"
    and "stored_floored (maxSelections p)"
  shows "stored_floored (maxSelections (json_apply_updates u p))"
  using assms
  by (simp add: json_apply_updates_def Let_def stored_floored_def maxSel_floored
      split: option.splits)

lemma mongo_apply_updates_floored:
  assumes "integral_input (up_max_selections u)" and "integral_input (up_maxSelections u)"
    and "stored_floored (maxSelections p)"
  shows "stored_floored (maxSelections (mongo_apply_updates u p))"
  using assms
  by (simp add: mongo_apply_updates_def Let_def stored_floored_def maxSel_floored
      split: option.splits)

lemma findIndex_bound: "findIndex P xs = Some i \<Longrightarrow> i < length xs"
  by (induction xs arbitrary: i) (auto split: if_splits)

text \<open>A write keeps a property of the held documents that the written document has.\<close>

lemma atomicWrite_held:
  assumes "list_all Q (held_documents s)" and "Q (json_doc d)"
  shows "list_all Q (held_documents (snd (atomicWrite fault d s)))"
  using assms
  by (auto simp: atomicWrite_def held_documents_def Let_def split: option.splits)

lemma alias_held:
  assumes "list_all Q (held_documents s)" and "Q d"
  shows "list_all Q (held_documents (alias_defaultData d s))"
  using assms by (auto simp: alias_defaultData_def held_documents_def)

lemma json_catalog_step_floored:
  assumes inputs: "list_all integral_input (supplied_limits op)"
    and inv: "list_all (\<lambda>d. catalog_floored (problemStatements d)) (held_documents s)"
  shows "list_all (\<lambda>d. catalog_floored (problemStatements d)) (held_documents (json_catalog_step ce op s))"
proof -
  let ?Q = "\<lambda>d. catalog_floored (problemStatements d)"
  have rd: "?Q (read_data s)" using inv by (rule read_data_held)
  have w: "list_all ?Q (held_documents (snd (atomicWrite fault d (alias_defaultData d s))))"
    if "?Q d" for d fault
    by (rule atomicWrite_held [OF alias_held [OF inv that] json_doc_floored [OF that]])
  have w0: "list_all ?Q (held_documents (snd (atomicWrite fault d s)))" if "?Q d" for d fault
    by (rule atomicWrite_held [OF inv json_doc_floored [OF that]])
  show ?thesis
  proof (cases op)
    case (Create p)
    let ?d = "(read_data s)\<lparr>problemStatements := problemStatements (read_data s) @ [new_problem_statement p]\<rparr>"
    have "?Q ?d" using rd inputs Create
      by (simp add: catalog_floored_def new_problem_statement_floored)
    from w [OF this, of "writeFault ce"] inv Create show ?thesis
      by (auto simp: json_createProblemStatement_def Let_def split: prod.splits sum.splits)
  next
    case (Update i u)
    show ?thesis
    proof (cases "findIndex (\<lambda>p. ps_id p = i) (problemStatements (read_data s))")
      case None
      with inv Update show ?thesis by (simp add: json_updateProblemStatement_def)
    next
      case (Some idx)
      let ?old = "problemStatements (read_data s) ! idx"
      let ?d = "(read_data s)\<lparr>problemStatements :=
                   (problemStatements (read_data s))[idx := json_apply_updates u ?old]\<rparr>"
      have "stored_floored (maxSelections ?old)"
        using rd findIndex_bound [OF Some] by (simp add: catalog_floored_def list_all_length)
      then have "stored_floored (maxSelections (json_apply_updates u ?old))"
        using inputs Update by (simp add: json_apply_updates_floored)
      then have "?Q ?d" using rd by (simp add: catalog_floored_update)
      from w [OF this, of "writeFault ce"] Some Update show ?thesis
        by (auto simp: json_updateProblemStatement_def Let_def split: prod.splits sum.splits)
    qed
  next
    case (Import j)
    show ?thesis
    proof (cases j)
      case None
      with inv Import show ?thesis by (simp add: json_importFromJSON_def)
    next
      case (Some inputs')
      let ?d = "(read_data s)\<lparr>problemStatements := problemStatements (read_data s) @
                   map new_problem_statement
                     (filter (\<lambda>p. in_id p \<notin> set (map ps_id (problemStatements (read_data s)))) inputs')\<rparr>"
      have "?Q ?d" using rd inputs Import Some by (simp add: catalog_floored_new_filter)
      from w [OF this, of "writeFault ce"] Import Some show ?thesis
        by (simp add: json_importFromJSON_def Let_def)
    qed
  next
    case (Replace j)
    show ?thesis
    proof (cases j)
      case None
      with inv Replace show ?thesis by (simp add: json_replaceFromJSON_def)
    next
      case (Some inputs')
      let ?d = "\<lparr>problemStatements = map new_problem_statement inputs', registrations = []\<rparr>"
      have "?Q ?d" using inputs Replace Some by (simp add: catalog_floored_new)
      from w0 [OF this, of "writeFault ce"] Replace Some show ?thesis
        by (auto simp: json_replaceFromJSON_def split: prod.splits sum.splits)
    qed
  qed
qed

lemma defaults_floored: "catalog_floored defaults"
  by (simp add: catalog_floored_def defaults_def stored_floored_def floored_def is_integer_ge1_def)

lemma ensure_init_floored:
  "catalog_floored (ps_coll s) \<Longrightarrow> catalog_floored (ps_coll (snd (ensure_init ie s)))"
  by (auto simp: ensure_init_def mongo_init_def Let_def defaults_floored split: option.splits)

lemma mongo_catalog_step_floored:
  assumes inputs: "list_all integral_input (supplied_limits op)"
    and inv: "catalog_floored (ps_coll s)"
  shows "catalog_floored (ps_coll (mongo_catalog_step ie ce op s))"
proof -
  obtain r0 s0 where e: "ensure_init ie s = (r0, s0)" by (cases "ensure_init ie s") auto
  have inv0: "catalog_floored (ps_coll s0)" using ensure_init_floored [OF inv, of ie] e by simp
  show ?thesis
  proof (cases op)
    case (Create p)
    with inputs inv0 e show ?thesis
      by (auto simp: mongo_createProblemStatement_def catalog_floored_def new_problem_statement_floored
          split: sum.splits option.splits)
  next
    case (Update i u)
    have "catalog_floored (updateOne (\<lambda>p. ps_id p = i) (mongo_apply_updates u) (ps_coll s0))"
      unfolding catalog_floored_def
      by (rule updateOne_list_all [OF inv0 [unfolded catalog_floored_def]])
         (use inputs Update in \<open>simp add: mongo_apply_updates_floored\<close>)
    with inv0 e Update show ?thesis
      by (auto simp: mongo_updateProblemStatement_def Let_def split: sum.splits)
  next
    case (Import j)
    show ?thesis
    proof (cases j)
      case None
      with inv Import show ?thesis by (simp add: mongo_importFromJSON_def)
    next
      case (Some inputs')
      have n: "catalog_floored (map new_problem_statement (filter P inputs'))" for P
        using inputs Import Some by (simp add: catalog_floored_new_filter)
      from inv0 e Import Some n catalog_floored_take [OF n] show ?thesis
        by (auto simp: mongo_importFromJSON_def insertMany_def Let_def split: sum.splits option.splits)
    qed
  next
    case (Replace j)
    show ?thesis
    proof (cases j)
      case None
      with inv Replace show ?thesis by (simp add: mongo_replaceFromJSON_def)
    next
      case (Some inputs')
      have n: "catalog_floored (map new_problem_statement inputs')"
        using inputs Replace Some by (simp add: catalog_floored_new)
      from inv0 e Replace Some n catalog_floored_take [OF n] show ?thesis
        by (auto simp: mongo_replaceFromJSON_def insertMany_def Let_def catalog_floored_def
            split: sum.splits option.splits)
    qed
  qed
qed

lemma views_floored:
  "catalog_floored pss \<Longrightarrow> list_all (\<lambda>v. floored (max_selections v)) (map (\<lambda>p. view_of (c p) p) pss)"
  by (induction pss) (simp_all add: catalog_floored_def view_of_def maxSel_stored_floored)

lemma json_views_floored:
  assumes "list_all (\<lambda>d. catalog_floored (problemStatements d)) (held_documents s)"
  shows "list_all (\<lambda>v. floored (max_selections v)) (json_getAllProblemStatements s)"
  unfolding json_getAllProblemStatements_def Let_def
  by (rule views_floored) (rule read_data_held [OF assms])

lemma mongo_views_floored:
  assumes "catalog_floored (ps_coll s)"
  shows "list_all (\<lambda>v. floored (max_selections v)) (mongo_views ie s)"
proof -
  obtain r0 s0 where e: "ensure_init ie s = (r0, s0)" by (cases "ensure_init ie s") auto
  have inv0: "catalog_floored (ps_coll s0)" using ensure_init_floored [OF assms, of ie] e by simp
  from views_floored [OF inv0] e show ?thesis
    by (auto simp: mongo_views_def mongo_getAllProblemStatements_def split: sum.splits)
qed

lemma maxSel_half: "maxSel (JNum (Fin (5 / 2))) = Fin (5 / 2)"
  by (simp add: maxSel_def parsedMax_def)

lemma parseInt_example: "parseInt '' -3 teams'' = Fin (- 3)"
  by (simp add: parseInt_def isWhiteSpace_def isDigit_def digits_value_def number_of_nat_def negate_def)

lemma maxSel_example: "maxSel (JStr '' -3 teams'') = Fin 1"
  by (simp add: maxSel_def parsedMax_def parseInt_example or_zero_def)

text \<open>
  C9, as stated, fails: a limit of 2.5 given as a Number is stored as 2.5 by
  \<open>createProblemStatement\<close> in both stores and returned as 2.5 by
  \<open>getAllProblemStatements\<close>, and 2.5 is not an integer.
\<close>

theorem fractional_limit_is_stored:
  "maxSelections (last (ps_coll (snd (mongo_createProblemStatement no_init None half_input mongo_store0))))
     = Some (Fin (5 / 2))
   \<and> maxSelections (last (problemStatements (readFromSource
        (snd (json_createProblemStatement None half_input file_store0))))) = Some (Fin (5 / 2))
   \<and> max_selections (last (json_getAllProblemStatements
        (snd (json_createProblemStatement None half_input file_store0)))) = Fin (5 / 2)
   \<and> \<not> is_integer_ge1 (Fin (5 / 2))"
proof -
  have m: "maxSelections (new_problem_statement half_input) = Some (Fin (5 / 2))"
    by (simp add: new_problem_statement_def half_input_def maxSel_half)
  have v: "max_selections (view_of c (p\<lparr>maxSelections := Some (Fin (5 / 2))\<rparr>)) = Fin (5 / 2)" for c p
    by (simp add: view_of_def stored_value_def maxSel_half)
  have i: "ps_id (new_problem_statement half_input) = ''ps900''"
    by (simp add: new_problem_statement_def half_input_def)
  have 1: "maxSelections (last (ps_coll (snd (mongo_createProblemStatement no_init None half_input mongo_store0))))
     = Some (Fin (5 / 2))"
    by (simp add: mongo_createProblemStatement_def ensure_init_def mongo_store0_def m)
  have w: "snd (json_createProblemStatement None half_input file_store0)
      = file_store0\<lparr>memoryData := Some (json_doc (one_doc\<lparr>problemStatements :=
            catalog @ [new_problem_statement half_input]\<rparr>)),
          source := Some (json_doc (one_doc\<lparr>problemStatements :=
            catalog @ [new_problem_statement half_input]\<rparr>))\<rparr>"
    by (simp add: json_createProblemStatement_def read_data_def file_store0_def one_doc_def
        catalog_def half_input_def atomicWrite_def alias_defaultData_def Let_def)
  have j: "last (problemStatements (json_doc (one_doc\<lparr>problemStatements :=
            catalog @ [new_problem_statement half_input]\<rparr>)))
        = (new_problem_statement half_input)\<lparr>maxSelections := Some (Fin (5 / 2))\<rparr>"
    by (simp add: json_doc_def m json_num_def)
  have 2: "maxSelections (last (problemStatements (readFromSource
        (snd (json_createProblemStatement None half_input file_store0))))) = Some (Fin (5 / 2))"
    by (simp add: w readFromSource_def j)
  have 3: "max_selections (last (json_getAllProblemStatements
        (snd (json_createProblemStatement None half_input file_store0)))) = Fin (5 / 2)"
    unfolding json_getAllProblemStatements_def Let_def w read_data_def
    using j by (simp add: last_map json_doc_def v)
  from 1 2 3 fraction_not_integer show ?thesis by blast
qed

text \<open>
  C9, amended.  Every \<open>maxSelections\<close> value is stored as \<open>Math.max(1, parsed)\<close>.  When
  every limit a call of \<open>createProblemStatement\<close>, \<open>updateProblemStatement\<close>,
  \<open>importFromJSON\<close> or \<open>replaceFromJSON\<close> supplies is integral (not of type Number, or a
  finite Number without a fraction) and the stored limits are integers that are at least
  1 (or \<open>Infinity\<close>, \<open>null\<close> in the JSON file, which only digits beyond the range of a
  double produce), then so are the stored limits after the call, in both stores, and so
  are the \<open>max_selections\<close> that \<open>getAllProblemStatements\<close> returns.  A value that parses
  to at most 1, and a string without a leading number, yields 1.
\<close>

theorem maxSelections_floor:
  assumes inputs: "list_all integral_input (supplied_limits op)"
    and fileinv: "list_all (\<lambda>d. catalog_floored (problemStatements d)) (held_documents fs)"
    and mongoinv: "catalog_floored (ps_coll ms)"
  shows "list_all (\<lambda>d. catalog_floored (problemStatements d)) (held_documents (json_catalog_step ce op fs))
       \<and> catalog_floored (ps_coll (mongo_catalog_step ie ce op ms))
       \<and> list_all (\<lambda>v. floored (max_selections v)) (json_getAllProblemStatements fs)
       \<and> list_all (\<lambda>v. floored (max_selections v)) (mongo_views ie ms)
       \<and> (\<forall>v q. parsedMax v = Fin q \<and> q \<le> 1 \<longrightarrow> maxSel v = Fin 1)
       \<and> (\<forall>str. str \<noteq> [] \<and> parseInt str = NaN \<longrightarrow> maxSel (JStr str) = Fin 1)"
  using json_catalog_step_floored [OF inputs fileinv] mongo_catalog_step_floored [OF inputs mongoinv]
    json_views_floored [OF fileinv] mongo_views_floored [OF mongoinv]
    maxSel_low maxSel_not_numeric
  by blast

theorem maxSelections_floor_witness:
  "list_all integral_input (supplied_limits (Create text_input))
   \<and> catalog_floored (ps_coll mongo_store0)
   \<and> catalog_floored (ps_coll (mongo_catalog_step no_init no_faults (Create text_input) mongo_store0))
   \<and> list_all (\<lambda>d. catalog_floored (problemStatements d))
        (held_documents (json_catalog_step no_faults (Create text_input) file_store0))
   \<and> maxSel (in_maxSelections text_input) = Fin 1"
proof -
  have c: "catalog_floored catalog"
    by (simp add: catalog_floored_def catalog_def stored_floored_def floored_def is_integer_ge1_def)
  have i: "list_all integral_input (supplied_limits (Create text_input))"
    by (simp add: text_input_def integral_input_def)
  have f: "list_all (\<lambda>d. catalog_floored (problemStatements d)) (held_documents file_store0)"
    using c by (simp add: held_documents_def file_store0_def one_doc_def empty_doc_def catalog_floored_def)
  have g: "catalog_floored (ps_coll mongo_store0)" using c by (simp add: mongo_store0_def)
  have m: "maxSel (in_maxSelections text_input) = Fin 1"
    by (simp add: text_input_def maxSel_example)
  from maxSelections_floor [where op = "Create text_input" and fs = file_store0 and ms = mongo_store0
      and ce = no_faults and ie = no_init, OF i f g] i g m
  show ?thesis by simp
qed

end
